theory Spec2Isabelle
  imports Complex_Main "HOL-Library.AList"
begin

section \<open>JavaScript values\<close>

text \<open>
  Attribute and property values are the scalars JSON and the mapping SDK hand over:
  \<open>undefined\<close>, \<open>null\<close>, booleans, Numbers and strings. A finite Number is carried by the
  decimal digits that \<open>Number::toString\<close> prints for it: \<open>Decimal m e\<close> is the Number
  printed from the digits of \<open>m\<close> scaled by \<open>10 ^ e\<close> (\<open>Decimal 25 (- 1)\<close> is \<open>2.5\<close>,
  \<open>Decimal 3 0\<close> is \<open>3\<close>). Negative zero is not told apart from zero: \<open>String\<close>,
  \<open>typeof\<close>, \<open>isNaN\<close>, \<open>Number.isInteger\<close> and \<open>!==\<close> against a non-Number, the only
  operations applied to values here, agree on both.
\<close>

datatype jsnum = NaN | Infinity | NegInfinity | Decimal int int

datatype jsval = JUndefined | JNull | JBool bool | JNum jsnum | JStr string

subsection \<open>Decimal digits\<close>

definition digitChar :: "nat \<Rightarrow> char" where
  "digitChar d = ''0123456789'' ! (d mod 10)"

fun natToString :: "nat \<Rightarrow> string" where
  "natToString n = (if n < 10 then [digitChar n] else natToString (n div 10) @ [digitChar (n mod 10)])"

declare natToString.simps [simp del]

definition isDigit :: "char \<Rightarrow> bool" where
  "isDigit c = (c \<in> set ''0123456789'')"

definition digitValue :: "char \<Rightarrow> int" where
  "digitValue c = of_char c - 48"

definition parseDigits :: "string \<Rightarrow> int" where
  "parseDigits s = foldl (\<lambda>acc c. 10 * acc + digitValue c) 0 s"

text \<open>
  \<open>stripZeros m e\<close> moves the trailing zeros of the digits of \<open>m\<close> into the exponent, so
  that the digits are the shortest ones (\<open>s\<close> and \<open>n - k\<close> of \<open>Number::toString\<close>).
\<close>

fun stripZeros :: "nat \<Rightarrow> int \<Rightarrow> nat \<times> int" where
  "stripZeros m e = (if m \<noteq> 0 \<and> m mod 10 = 0 then stripZeros (m div 10) (e + 1) else (m, e))"

declare stripZeros.simps [simp del]

text \<open>\<open>Number::toString\<close> with radix 10, steps 5 to 10 of the language specification.\<close>

definition finiteToString :: "nat \<Rightarrow> int \<Rightarrow> string" where
  "finiteToString m e =
     (let (s, e') = stripZeros m e;
          ds = natToString s;
          k = int (length ds);
          n = k + e'
      in if k \<le> n \<and> n \<le> 21 then ds @ replicate (nat (n - k)) CHR ''0''
         else if 0 < n \<and> n \<le> 21 then take (nat n) ds @ ''.'' @ drop (nat n) ds
         else if - 6 < n \<and> n \<le> 0 then ''0.'' @ replicate (nat (- n)) CHR ''0'' @ ds
         else (if k = 1 then ds else take 1 ds @ ''.'' @ drop 1 ds)
              @ ''e'' @ (if 0 \<le> n - 1 then ''+'' else ''-'') @ natToString (nat \<bar>n - 1\<bar>))"

fun numberToString :: "jsnum \<Rightarrow> string" where
  "numberToString NaN = ''NaN''"
| "numberToString Infinity = ''Infinity''"
| "numberToString NegInfinity = ''-Infinity''"
| "numberToString (Decimal m e) =
     (if m = 0 then ''0''
      else if m < 0 then ''-'' @ finiteToString (nat (- m)) e
      else finiteToString (nat m) e)"

text \<open>\<open>String(value)\<close>.\<close>

fun String :: "jsval \<Rightarrow> string" where
  "String JUndefined = ''undefined''"
| "String JNull = ''null''"
| "String (JBool b) = (if b then ''true'' else ''false'')"
| "String (JNum x) = numberToString x"
| "String (JStr s) = s"

text \<open>\<open>typeof value === 'number' && !isNaN(value)\<close> and \<open>Number.isInteger(value)\<close>.\<close>

fun isNumberNotNaN :: "jsval \<Rightarrow> bool" where
  "isNumberNotNaN (JNum NaN) = False"
| "isNumberNotNaN (JNum _) = True"
| "isNumberNotNaN _ = False"

fun isInteger :: "jsval \<Rightarrow> bool" where
  "isInteger (JNum (Decimal m e)) = (m = 0 \<or> 0 \<le> snd (stripZeros (nat \<bar>m\<bar>) e))"
| "isInteger _ = False"

definition toLowerCase :: "string \<Rightarrow> string" where
  \<comment> \<open>\<open>String.prototype.toLowerCase\<close> on the ASCII letters; a character outside ASCII never
      lowers to one of the letters of the six geometry names, so it is left as it is.\<close>
  "toLowerCase s =
     map (\<lambda>c. case map_of (zip ''ABCDEFGHIJKLMNOPQRSTUVWXYZ'' ''abcdefghijklmnopqrstuvwxyz'') c of
                 None \<Rightarrow> c | Some l \<Rightarrow> l) s"

section \<open>GeoJSON to graphics: \<open>addGeoJSONToMap\<close>\<close>

datatype error = TypeError

text \<open>
  A \<open>coordinates\<close> member as parsed from JSON: absent or \<open>null\<close>, a Number, or an array
  of such. The code reads it without validation, so the model keeps all of these shapes.
\<close>

datatype coords = CMissing | CNum jsnum | CArr "coords list"

record rawGeometry =
  geomType :: "string option"  \<comment> \<open>\<open>geometry.type\<close>; \<open>None\<close> when it is not a string\<close>
  coordinates :: coords

record feature =
  geometry :: "rawGeometry option"  \<comment> \<open>\<open>None\<close> when \<open>feature.geometry\<close> is null or absent\<close>
  properties :: "(string \<times> jsval) list option"  \<comment> \<open>own keys in enumeration order\<close>

text \<open>The geometry objects built for the SDK; the last argument is \<open>spatialReference.wkid\<close>.\<close>

datatype esriGeometry =
    EsriPoint coords coords nat  \<comment> \<open>longitude, latitude\<close>
  | EsriPolyline coords nat  \<comment> \<open>paths\<close>
  | EsriPolygon coords nat  \<comment> \<open>rings\<close>
  | EsriMultipoint coords nat  \<comment> \<open>points\<close>

record graphic =
  graphicGeometry :: "esriGeometry option"
  attributes :: "string \<rightharpoonup> jsval"

text \<open>\<open>c[i]\<close>: reading an index of \<open>undefined\<close> or \<open>null\<close> throws, of a Number gives
  \<open>undefined\<close>, of an array gives the element or \<open>undefined\<close> past its end.\<close>

fun indexCoords :: "coords \<Rightarrow> nat \<Rightarrow> error + coords" where
  "indexCoords CMissing i = Inl TypeError"
| "indexCoords (CNum x) i = Inr CMissing"
| "indexCoords (CArr xs) i = Inr (if i < length xs then xs ! i else CMissing)"

text \<open>The two nested \<open>forEach\<close> loops that push every ring of every polygon on \<open>allRings\<close>;
  \<open>forEach\<close> exists on arrays only.\<close>

fun pushRings :: "coords list \<Rightarrow> coords list \<Rightarrow> error + coords list" where
  "pushRings allRings [] = Inr allRings"
| "pushRings allRings (CArr polygon # rest) = pushRings (allRings @ polygon) rest"
| "pushRings allRings (_ # rest) = Inl TypeError"

fun flattenRings :: "coords \<Rightarrow> error + coords list" where
  "flattenRings (CArr polygons) = pushRings [] polygons"
| "flattenRings _ = Inl TypeError"

definition convertGeometry :: "rawGeometry option \<Rightarrow> error + esriGeometry option" where
  "convertGeometry fg =
     (case fg of
        None \<Rightarrow> Inr None
      | Some g \<Rightarrow>
          (case geomType g of
             None \<Rightarrow> Inl TypeError
           | Some t \<Rightarrow>
               (let ty = toLowerCase t; c = coordinates g
                in if ty = ''point'' then
                     (case indexCoords c 0 of
                        Inl e \<Rightarrow> Inl e
                      | Inr lon \<Rightarrow>
                          (case indexCoords c 1 of
                             Inl e \<Rightarrow> Inl e
                           | Inr lat \<Rightarrow> Inr (Some (EsriPoint lon lat 4326))))
                   else if ty = ''linestring'' then Inr (Some (EsriPolyline (CArr [c]) 4326))
                   else if ty = ''polygon'' then Inr (Some (EsriPolygon c 4326))
                   else if ty = ''multipoint'' then Inr (Some (EsriMultipoint c 4326))
                   else if ty = ''multilinestring'' then Inr (Some (EsriPolyline c 4326))
                   else if ty = ''multipolygon'' then
                     (case flattenRings c of
                        Inl e \<Rightarrow> Inl e
                      | Inr allRings \<Rightarrow> Inr (Some (EsriPolygon (CArr allRings) 4326)))
                   else Inr None)))"

definition spreadProperties :: "(string \<times> jsval) list option \<Rightarrow> (string \<rightharpoonup> jsval)" where
  \<comment> \<open>\<open>...feature.properties\<close>; spreading \<open>null\<close> adds nothing\<close>
  "spreadProperties ps = (case ps of None \<Rightarrow> Map.empty | Some kvs \<Rightarrow> map_of kvs)"

definition numberOfNat :: "nat \<Rightarrow> jsval" where
  "numberOfNat n = JNum (Decimal (int n) 0)"

definition toGraphic :: "nat \<Rightarrow> feature \<Rightarrow> error + graphic" where
  \<comment> \<open>the callback of \<open>features.map\<close>, at position \<open>index\<close>\<close>
  "toGraphic index f =
     (case convertGeometry (geometry f) of
        Inl e \<Rightarrow> Inl e
      | Inr g \<Rightarrow>
          Inr \<lparr> graphicGeometry = g,
                attributes = [''OBJECTID'' \<mapsto> numberOfNat (index + 1), ''FID'' \<mapsto> numberOfNat (index + 1)]
                             ++ spreadProperties (properties f) \<rparr>)"

fun mapGraphics :: "nat \<Rightarrow> feature list \<Rightarrow> error + graphic list" where
  "mapGraphics index [] = Inr []"
| "mapGraphics index (f # fs) =
     (case toGraphic index f of
        Inl e \<Rightarrow> Inl e
      | Inr g \<Rightarrow> (case mapGraphics (index + 1) fs of Inl e \<Rightarrow> Inl e | Inr gs \<Rightarrow> Inr (g # gs)))"

definition convertFeatures :: "feature list \<Rightarrow> error + graphic list" where
  \<comment> \<open>\<open>features.map(...).filter(graphic => graphic !== null && graphic.geometry !== null)\<close>\<close>
  "convertFeatures fs =
     (case mapGraphics 0 fs of
        Inl e \<Rightarrow> Inl e
      | Inr gs \<Rightarrow> Inr (filter (\<lambda>g. graphicGeometry g \<noteq> None) gs))"

subsection \<open>Field type detection\<close>

record field =
  name :: string
  fieldAlias :: string
  fieldType :: string

text \<open>\<open>feature.properties[key]\<close>: throws when \<open>properties\<close> is \<open>null\<close>, \<open>undefined\<close> for a
  key the feature does not have.\<close>

definition propertyValue :: "feature \<Rightarrow> string \<Rightarrow> error + jsval" where
  "propertyValue f key =
     (case properties f of
        None \<Rightarrow> Inl TypeError
      | Some kvs \<Rightarrow> Inr (case map_of kvs key of None \<Rightarrow> JUndefined | Some v \<Rightarrow> v))"

text \<open>The \<open>forEach\<close> over all features that sets \<open>hasNumber\<close> and \<open>hasDecimal\<close>.\<close>

fun scanValues :: "string \<Rightarrow> bool \<times> bool \<Rightarrow> feature list \<Rightarrow> error + bool \<times> bool" where
  "scanValues key flags [] = Inr flags"
| "scanValues key (hasNumber, hasDecimal) (f # fs) =
     (case propertyValue f key of
        Inl e \<Rightarrow> Inl e
      | Inr v \<Rightarrow>
          (if isNumberNotNaN v
           then scanValues key (True, if \<not> isInteger v then True else hasDecimal) fs
           else scanValues key (hasNumber, hasDecimal) fs))"

definition detectFieldType :: "feature list \<Rightarrow> string \<Rightarrow> error + string" where
  "detectFieldType fs key =
     (case scanValues key (False, False) fs of
        Inl e \<Rightarrow> Inl e
      | Inr (hasNumber, hasDecimal) \<Rightarrow>
          Inr (if hasNumber then (if hasDecimal then ''double'' else ''integer'') else ''string''))"

definition underscoresToSpaces :: "string \<Rightarrow> string" where
  "underscoresToSpaces s = map (\<lambda>c. if c = CHR ''_'' then CHR '' '' else c) s"

fun propertyFields :: "feature list \<Rightarrow> string list \<Rightarrow> error + field list" where
  "propertyFields fs [] = Inr []"
| "propertyFields fs (key # keys) =
     (case detectFieldType fs key of
        Inl e \<Rightarrow> Inl e
      | Inr t \<Rightarrow>
          (case propertyFields fs keys of
             Inl e \<Rightarrow> Inl e
           | Inr rest \<Rightarrow> Inr (\<lparr> name = key, fieldAlias = underscoresToSpaces key, fieldType = t \<rparr> # rest)))"

definition buildFields :: "feature list \<Rightarrow> error + field list" where
  "buildFields fs =
     (let fixed = [\<lparr> name = ''OBJECTID'', fieldAlias = ''OBJECTID'', fieldType = ''oid'' \<rparr>,
                   \<lparr> name = ''FID'', fieldAlias = ''FID'', fieldType = ''integer'' \<rparr>]
      in case fs of
           [] \<Rightarrow> Inr fixed
         | f # _ \<Rightarrow>
             (case properties f of
                None \<Rightarrow> Inr fixed
              | Some kvs \<Rightarrow>
                  (case propertyFields fs (map fst kvs) of
                     Inl e \<Rightarrow> Inl e
                   | Inr extra \<Rightarrow> Inr (fixed @ extra))))"

definition firstGeometryType :: "feature list \<Rightarrow> error + string" where
  "firstGeometryType fs =
     (case fs of
        [] \<Rightarrow> Inr ''polygon''
      | f # _ \<Rightarrow>
          (case geometry f of
             None \<Rightarrow> Inr ''polygon''
           | Some g \<Rightarrow>
               (case geomType g of
                  None \<Rightarrow> Inl TypeError
                | Some t \<Rightarrow>
                    (let ty = toLowerCase t
                     in Inr (if ty = ''point'' \<or> ty = ''multipoint'' then ''point''
                             else if ty = ''linestring'' \<or> ty = ''multilinestring'' then ''polyline''
                             else ''polygon'')))))"

subsection \<open>Symbols and renderers\<close>

text \<open>A colour is the array of Numbers the code writes: three channels, and an opacity
  where one is appended.\<close>

type_synonym color = "rat list"

datatype symbol =
    SimpleMarker color nat color nat  \<comment> \<open>color, size, outline color, outline width\<close>
  | SimpleLine color nat  \<comment> \<open>color, width\<close>
  | SimpleFill color color nat  \<comment> \<open>color, outline color, outline width\<close>

record uniqueValueInfo =
  infoValue :: string
  infoSymbol :: symbol
  infoLabel :: string

text \<open>The user-visible texts are Arabic; each is named by what it says. The message of
  the \<open>catch\<close> block, \<open>ClassificationError\<close>, is listed for completeness: no step of the
  model throws inside the \<open>try\<close>.\<close>

datatype uiText =
    OtherLabel  \<comment> \<open>the \<open>defaultLabel\<close> of a classified renderer\<close>
  | PleaseChooseField
  | NoValidValues
  | ClassificationError
  | Applying
  | ApplyClassification

datatype renderer =
    SimpleRenderer symbol
  | UniqueValueRenderer string "uniqueValueInfo list" symbol uiText
      \<comment> \<open>field, uniqueValueInfos, defaultSymbol, defaultLabel\<close>

definition layerColors :: "color list" where
  "layerColors = [[59, 130, 246], [20, 184, 166], [249, 115, 22], [139, 92, 246], [34, 197, 94]]"

definition createCustomRenderer :: "nat \<Rightarrow> string \<Rightarrow> renderer" where
  \<comment> \<open>the first argument is \<open>uploadedLayers.length\<close>\<close>
  "createCustomRenderer uploaded gt =
     (let color = layerColors ! (uploaded mod length layerColors)
      in if gt = ''esriGeometryPoint'' then SimpleRenderer (SimpleMarker color 8 [255, 255, 255] 2)
         else if gt = ''esriGeometryPolyline'' then SimpleRenderer (SimpleLine color 3)
         else SimpleRenderer (SimpleFill (color @ [3 / 10]) color 2))"

definition capitalize :: "string \<Rightarrow> string" where
  \<comment> \<open>\<open>s.charAt(0).toUpperCase() + s.slice(1)\<close>\<close>
  "capitalize s =
     map (\<lambda>c. case map_of (zip ''abcdefghijklmnopqrstuvwxyz'' ''ABCDEFGHIJKLMNOPQRSTUVWXYZ'') c of
                 None \<Rightarrow> c | Some u \<Rightarrow> u) (take 1 s) @ drop 1 s"

subsection \<open>The layer\<close>

record featureLayer =
  source :: "graphic list"
  layerFields :: "field list"
  objectIdField :: string
  geometryType :: string
  title :: string
  renderer :: renderer

definition addGeoJSONToMap :: "nat \<Rightarrow> feature list \<Rightarrow> string \<Rightarrow> error + featureLayer" where
  \<comment> \<open>the layer handed to the SDK, given \<open>uploadedLayers.length\<close>; a \<open>TypeError\<close> anywhere
      is rethrown by the \<open>catch\<close>\<close>
  "addGeoJSONToMap uploaded fs layerName =
     (case convertFeatures fs of
        Inl e \<Rightarrow> Inl e
      | Inr graphics \<Rightarrow>
          (case buildFields fs of
             Inl e \<Rightarrow> Inl e
           | Inr flds \<Rightarrow>
               (case firstGeometryType fs of
                  Inl e \<Rightarrow> Inl e
                | Inr gt \<Rightarrow>
                    Inr \<lparr> source = graphics, layerFields = flds, objectIdField = ''OBJECTID'',
                          geometryType = gt,
                          title = (if layerName = [] then ''GeoJSON Layer'' else layerName),
                          renderer = createCustomRenderer uploaded (''esriGeometry'' @ capitalize gt) \<rparr>)))"

section \<open>Field statistics: \<open>analyzeFieldValues\<close>\<close>

text \<open>
  \<open>valueCount\<close> is a plain object used as a dictionary. Its own properties are kept in
  creation order. A property value is a Number (a count) or, where the key names a
  property that a plain object inherits from \<open>Object.prototype\<close>, a string: the inherited
  function is truthy, so \<open>(valueCount[key] || 0) + 1\<close> concatenates its source text with
  \<open>1\<close>. The key \<open>__proto__\<close> is an accessor whose setter ignores a string, so the
  assignment creates no property.
\<close>

datatype countval = Count nat | Text string

definition objectPrototypeFunctions :: "(string \<times> string) list" where
  \<comment> \<open>property name, and the name the function prints in its source text\<close>
  "objectPrototypeFunctions =
     [(''constructor'', ''Object''), (''hasOwnProperty'', ''hasOwnProperty''),
      (''isPrototypeOf'', ''isPrototypeOf''), (''propertyIsEnumerable'', ''propertyIsEnumerable''),
      (''toLocaleString'', ''toLocaleString''), (''toString'', ''toString''),
      (''valueOf'', ''valueOf''), (''__defineGetter__'', ''__defineGetter__''),
      (''__defineSetter__'', ''__defineSetter__''), (''__lookupGetter__'', ''__lookupGetter__''),
      (''__lookupSetter__'', ''__lookupSetter__'')]"

definition nativeSource :: "string \<Rightarrow> string" where
  \<comment> \<open>the text of a built-in function; its white space varies between engines\<close>
  "nativeSource f = ''function '' @ f @ ''() { [native code] }''"

definition inheritedNames :: "string list" where
  "inheritedNames = ''__proto__'' # map fst objectPrototypeFunctions"

datatype propertyRead = Own countval | InheritedFunction string | InheritedProto | Absent

definition readProperty :: "(string \<times> countval) list \<Rightarrow> string \<Rightarrow> propertyRead" where
  "readProperty valueCount key =
     (case map_of valueCount key of
        Some c \<Rightarrow> Own c
      | None \<Rightarrow>
          (if key = ''__proto__'' then InheritedProto
           else case map_of objectPrototypeFunctions key of
                  Some f \<Rightarrow> InheritedFunction f
                | None \<Rightarrow> Absent))"

fun truthy :: "countval \<Rightarrow> bool" where
  "truthy (Count n) = (n \<noteq> 0)"
| "truthy (Text s) = (s \<noteq> [])"

fun plusOne :: "countval \<Rightarrow> countval" where
  "plusOne (Count n) = Count (n + 1)"
| "plusOne (Text s) = Text (s @ ''1'')"

definition countKey :: "(string \<times> countval) list \<Rightarrow> string \<Rightarrow> (string \<times> countval) list" where
  \<comment> \<open>\<open>valueCount[key] = (valueCount[key] || 0) + 1\<close>\<close>
  "countKey valueCount key =
     (case readProperty valueCount key of
        Own c \<Rightarrow> AList.update key (plusOne (if truthy c then c else Count 0)) valueCount
      | InheritedFunction f \<Rightarrow> AList.update key (Text (nativeSource f @ ''1'')) valueCount
      | InheritedProto \<Rightarrow> valueCount
      | Absent \<Rightarrow> AList.update key (Count 1) valueCount)"

text \<open>
  \<open>Object.entries\<close> and \<open>Object.keys\<close> list the own properties whose key is an array index
  (decimal digits without a leading zero, of value at most \<open>2^32 - 2\<close>) first, in ascending numeric order, and
  then the other keys in creation order.
\<close>

definition isArrayIndex :: "string \<Rightarrow> bool" where
  "isArrayIndex s =
     (s \<noteq> [] \<and> list_all isDigit s \<and> (s = ''0'' \<or> hd s \<noteq> CHR ''0'') \<and> parseDigits s \<le> 4294967294)"

definition entries :: "(string \<times> 'a) list \<Rightarrow> (string \<times> 'a) list" where
  "entries obj =
     sort_key (\<lambda>p. parseDigits (fst p)) (filter (\<lambda>p. isArrayIndex (fst p)) obj)
     @ filter (\<lambda>p. \<not> isArrayIndex (fst p)) obj"

text \<open>
  The comparator \<open>(a, b) => b[1] - a[1]\<close>: a difference that involves a string count is
  \<open>NaN\<close>, which \<open>sort\<close> reads as \<open>+0\<close>. \<open>Array.prototype.sort\<close> is stable; it is modelled
  as insertion from the right, which keeps elements that compare equal in their order.
\<close>

definition compareCounts :: "string \<times> countval \<Rightarrow> string \<times> countval \<Rightarrow> int" where
  "compareCounts a b =
     (case (snd b, snd a) of
        (Count y, Count x) \<Rightarrow> int y - int x
      | _ \<Rightarrow> 0)"

fun insertBy :: "('a \<Rightarrow> 'a \<Rightarrow> int) \<Rightarrow> 'a \<Rightarrow> 'a list \<Rightarrow> 'a list" where
  "insertBy cmp x [] = [x]"
| "insertBy cmp x (y # ys) = (if cmp x y \<le> 0 then x # y # ys else y # insertBy cmp x ys)"

definition sortBy :: "('a \<Rightarrow> 'a \<Rightarrow> int) \<Rightarrow> 'a list \<Rightarrow> 'a list" where
  "sortBy cmp xs = foldr (insertBy cmp) xs []"

record fieldStats =
  totalFeatures :: nat
  validCount :: nat
  uniqueCount :: nat
  sortedValues :: "(string \<times> countval) list"
  fieldName :: string

definition attributeValue :: "(string \<rightharpoonup> jsval) \<Rightarrow> string \<Rightarrow> jsval" where
  \<comment> \<open>\<open>feature.attributes[fieldName]\<close>\<close>
  "attributeValue attrs f = (case attrs f of None \<Rightarrow> JUndefined | Some v \<Rightarrow> v)"

definition isValidValue :: "jsval \<Rightarrow> bool" where
  \<comment> \<open>\<open>value !== null && value !== undefined && value !== ''\<close>\<close>
  "isValidValue v = (v \<noteq> JNull \<and> v \<noteq> JUndefined \<and> v \<noteq> JStr [])"

definition tally :: "jsval list \<Rightarrow> (string \<times> countval) list" where
  \<comment> \<open>the \<open>forEach\<close> that fills \<open>valueCount\<close>\<close>
  "tally validValues = foldl countKey [] (map String validValues)"

definition analyzeFieldValues :: "(string \<rightharpoonup> jsval) list option \<Rightarrow> string \<Rightarrow> fieldStats option" where
  \<comment> \<open>the first argument is what \<open>layer.queryFeatures\<close> resolves to: the attributes of the
      features, or \<open>None\<close> when the query is rejected (the \<open>catch\<close> returns \<open>null\<close>)\<close>
  "analyzeFieldValues results fld =
     (case results of
        None \<Rightarrow> None
      | Some features \<Rightarrow>
          (if length features = 0 then None
           else
             (let values = map (\<lambda>a. attributeValue a fld) features;
                  validValues = filter isValidValue values;
                  valueCount = tally validValues
              in Some \<lparr> totalFeatures = length features,
                        validCount = length validValues,
                        uniqueCount = length (entries valueCount),
                        sortedValues = take 20 (sortBy compareCounts (entries valueCount)),
                        fieldName = fld \<rparr>)))"


section \<open>Classification: \<open>generateColors\<close> and \<open>applyFieldClassification\<close>\<close>

definition colors :: "color list" where
  "colors =
     [[59, 130, 246], [34, 197, 94], [249, 115, 22], [139, 92, 246], [236, 72, 153],
      [20, 184, 166], [245, 158, 11], [239, 68, 68], [156, 163, 175], [16, 185, 129],
      [124, 58, 237], [217, 70, 239], [14, 165, 233], [34, 197, 94], [251, 146, 60],
      [244, 63, 94], [168, 85, 247], [59, 130, 246], [16, 185, 129], [245, 158, 11]]"

definition generateColors :: "nat \<Rightarrow> color list" where
  "generateColors count = map (\<lambda>i. colors ! (i mod length colors)) [0..<count]"

definition createDefaultSymbol :: "string \<Rightarrow> symbol" where
  "createDefaultSymbol gt =
     (if gt = ''point'' then SimpleMarker [128, 128, 128, 8 / 10] 6 [255, 255, 255] 1
      else if gt = ''polyline'' then SimpleLine [128, 128, 128, 8 / 10] 2
      else SimpleFill [128, 128, 128, 5 / 10] [128, 128, 128] 1)"

fun countToString :: "countval \<Rightarrow> string" where
  "countToString (Count n) = natToString n"
| "countToString (Text s) = s"

definition uniqueValueInfos ::
    "string \<Rightarrow> color list \<Rightarrow> (string \<times> countval) list \<Rightarrow> uniqueValueInfo list" where
  \<comment> \<open>\<open>stats.sortedValues.map(([value, count], index) => ...)\<close>\<close>
  "uniqueValueInfos layerGeometryType cols svs =
     map (\<lambda>(index, (v, count)).
            let color = cols ! index;
                symbol = (if layerGeometryType = ''point'' then SimpleMarker color 8 [255, 255, 255] 1
                          else if layerGeometryType = ''polyline'' then SimpleLine color 3
                          else SimpleFill (color @ [7 / 10]) color 2)
            in \<lparr> infoValue = v, infoSymbol = symbol,
                  infoLabel = v @ '' ('' @ countToString count @ '')'' \<rparr>)
         (enumerate 0 svs)"

text \<open>The legend the page shows; the percentage text of an item is a formatted
  floating-point quotient and is left out.\<close>

record legendItem =
  itemColor :: color
  itemLabel :: string
  itemCount :: countval

record appState =
  currentClassificationLayer :: "featureLayer option"
  fieldSelect :: string  \<comment> \<open>the selected value of the field control\<close>
  alerts :: "uiText list"  \<comment> \<open>the messages shown by \<open>alert\<close>, oldest first\<close>
  applyButtonText :: uiText
  applyButtonDisabled :: bool
  legendTitle :: string
  legendItems :: "legendItem list"
  legendHidden :: bool
  classificationPanelHidden :: bool

definition createMapLegend :: "fieldStats \<Rightarrow> color list \<Rightarrow> string \<Rightarrow> appState \<Rightarrow> appState" where
  "createMapLegend stats cols fld st =
     (let flds = (case currentClassificationLayer st of None \<Rightarrow> [] | Some l \<Rightarrow> layerFields l);
          fieldLabel = (case find (\<lambda>f. name f = fld) flds of
                          None \<Rightarrow> fld
                        | Some f \<Rightarrow> (if fieldAlias f = [] then name f else fieldAlias f))
      in st \<lparr> legendTitle := fieldLabel,
               legendItems := map (\<lambda>(index, (v, count)).
                                     \<lparr> itemColor = cols ! index, itemLabel = v, itemCount = count \<rparr>)
                                  (enumerate 0 (sortedValues stats)),
               legendHidden := False \<rparr>)"

definition applyFieldClassification ::
    "(featureLayer \<Rightarrow> string \<Rightarrow> (string \<rightharpoonup> jsval) list option) \<Rightarrow> appState \<Rightarrow> appState" where
  \<comment> \<open>the first argument is the SDK's \<open>queryFeatures\<close> for the field asked\<close>
  "applyFieldClassification queryFeatures st =
     (let fld = fieldSelect st
      in if fld = [] then st \<lparr> alerts := alerts st @ [PleaseChooseField] \<rparr>
         else
           (case currentClassificationLayer st of
              None \<Rightarrow> st \<lparr> alerts := alerts st @ [PleaseChooseField] \<rparr>
            | Some layer \<Rightarrow>
                (let loading = st \<lparr> applyButtonText := Applying, applyButtonDisabled := True \<rparr>;
                     finished =
                       (case analyzeFieldValues (queryFeatures layer fld) fld of
                          None \<Rightarrow> loading \<lparr> alerts := alerts loading @ [NoValidValues] \<rparr>
                        | Some stats \<Rightarrow>
                            (if uniqueCount stats = 0
                             then loading \<lparr> alerts := alerts loading @ [NoValidValues] \<rparr>
                             else
                               (let cols = generateColors (length (sortedValues stats));
                                    layerGeometryType = geometryType layer;
                                    renderer' =
                                      UniqueValueRenderer fld
                                        (uniqueValueInfos layerGeometryType cols (sortedValues stats))
                                        (createDefaultSymbol layerGeometryType) OtherLabel;
                                    applied = loading \<lparr> currentClassificationLayer :=
                                                           Some (layer \<lparr> renderer := renderer' \<rparr>) \<rparr>
                                in (createMapLegend stats cols fld applied)
                                     \<lparr> classificationPanelHidden := True \<rparr>)))
                 in finished \<lparr> applyButtonText := ApplyClassification,
                               applyButtonDisabled := False \<rparr>)))"

section \<open>Notions used to state the properties\<close>

text \<open>The values a property key has across the features, \<open>undefined\<close> where it is absent.\<close>

definition valuesOf :: "string \<Rightarrow> feature list \<Rightarrow> jsval list" where
  "valuesOf key fs =
     map (\<lambda>f. case properties f of
                 None \<Rightarrow> JUndefined
               | Some kvs \<Rightarrow> (case map_of kvs key of None \<Rightarrow> JUndefined | Some v \<Rightarrow> v)) fs"

text \<open>A feature that carries nothing but the value \<open>v\<close> of the property \<open>k\<close>.\<close>

definition withProperty :: "string \<Rightarrow> jsval \<Rightarrow> feature" where
  "withProperty k v = \<lparr> geometry = None, properties = Some [(k, v)] \<rparr>"

text \<open>The six geometry names of the \<open>switch\<close>, and a geometry that is none of them: no
  geometry at all, a geometry object whose \<open>type\<close> is absent or not a string, or one whose
  type, in lower case, is not among the six names.\<close>

definition recognizedTypes :: "string list" where
  "recognizedTypes =
     [''point'', ''linestring'', ''polygon'', ''multipoint'', ''multilinestring'', ''multipolygon'']"

definition unsupportedGeometry :: "rawGeometry option \<Rightarrow> bool" where
  "unsupportedGeometry g =
     (case g of
        None \<Rightarrow> True
      | Some r \<Rightarrow> (case geomType r of None \<Rightarrow> True | Some t \<Rightarrow> toLowerCase t \<notin> set recognizedTypes))"

text \<open>The geometry, if there is one, names its type by a string.\<close>

definition typeIsString :: "rawGeometry option \<Rightarrow> bool" where
  "typeIsString g = (case g of None \<Rightarrow> True | Some r \<Rightarrow> geomType r \<noteq> None)"

definition objectIds :: "graphic list \<Rightarrow> jsval option list" where
  "objectIds gs = map (\<lambda>g. attributes g ''OBJECTID'') gs"

definition fids :: "graphic list \<Rightarrow> jsval option list" where
  "fids gs = map (\<lambda>g. attributes g ''FID'') gs"

text \<open>A feature is kept when its geometry converts to a geometry object.\<close>

definition keptFeature :: "feature \<Rightarrow> bool" where
  "keptFeature f = (case convertGeometry (geometry f) of Inr (Some g) \<Rightarrow> True | _ \<Rightarrow> False)"

text \<open>The Numbers \<open>1, 2, ..., n\<close> as attribute values.\<close>

definition oneToN :: "nat \<Rightarrow> jsval option list" where
  "oneToN n = map (\<lambda>j. Some (numberOfNat (j + 1))) [0..<n]"

text \<open>Sample features: a point, a geometry of an unknown type, and no geometry.\<close>

definition pointFeature :: "int \<Rightarrow> int \<Rightarrow> (string \<times> jsval) list \<Rightarrow> feature" where
  "pointFeature x y props =
     \<lparr> geometry = Some \<lparr> geomType = Some ''Point'',
                         coordinates = CArr [CNum (Decimal x 0), CNum (Decimal y 0)] \<rparr>,
       properties = Some props \<rparr>"

definition circleFeature :: feature where
  "circleFeature =
     \<lparr> geometry = Some \<lparr> geomType = Some ''Circle'', coordinates = CMissing \<rparr>,
       properties = Some [] \<rparr>"

definition bareFeature :: feature where
  "bareFeature = \<lparr> geometry = None, properties = None \<rparr>"

text \<open>A feature whose geometry object has coordinates but no \<open>type\<close> member.\<close>

definition untypedFeature :: feature where
  "untypedFeature =
     \<lparr> geometry = Some \<lparr> geomType = None,
                         coordinates = CArr [CNum (Decimal 1 0), CNum (Decimal 2 0)] \<rparr>,
       properties = Some [] \<rparr>"

text \<open>The unique-value rules of the layer being classified, if it has a classified renderer.\<close>

definition layerRules :: "appState \<Rightarrow> uniqueValueInfo list" where
  "layerRules st =
     (case currentClassificationLayer st of
        Some l \<Rightarrow> (case renderer l of UniqueValueRenderer f infos d lab \<Rightarrow> infos | SimpleRenderer s \<Rightarrow> [])
      | None \<Rightarrow> [])"

text \<open>A sample layer and page state, and a query that answers with one attribute per feature.\<close>

definition sampleLayer :: featureLayer where
  "sampleLayer =
     \<lparr> source = [], layerFields = [], objectIdField = ''OBJECTID'', geometryType = ''polygon'',
       title = ''sample'', renderer = createCustomRenderer 0 ''esriGeometryPolygon'' \<rparr>"

definition sampleState :: "string \<Rightarrow> appState" where
  "sampleState fld =
     \<lparr> currentClassificationLayer = Some sampleLayer, fieldSelect = fld, alerts = [],
       applyButtonText = ApplyClassification, applyButtonDisabled = False,
       legendTitle = [], legendItems = [], legendHidden = True,
       classificationPanelHidden = False \<rparr>"

definition answering :: "jsval list \<Rightarrow> featureLayer \<Rightarrow> string \<Rightarrow> (string \<rightharpoonup> jsval) list option" where
  "answering vs l fld = Some (map (\<lambda>v. [fld \<mapsto> v]) vs)"

text \<open>The string keys under which the valid values of a field are tallied.\<close>

definition validKeys :: "(string \<rightharpoonup> jsval) list \<Rightarrow> string \<Rightarrow> string list" where
  "validKeys features fld = map String (filter isValidValue (map (\<lambda>a. attributeValue a fld) features))"

text \<open>The number of features whose value of the field is valid and has the string form \<open>k\<close>.\<close>

definition countOfKey :: "(string \<rightharpoonup> jsval) list \<Rightarrow> string \<Rightarrow> string \<Rightarrow> nat" where
  "countOfKey features fld k =
     length (filter (\<lambda>a. isValidValue (attributeValue a fld) \<and> String (attributeValue a fld) = k)
                    features)"

text \<open>
  The statistics as the specification words them: one bucket per distinct key, in the
  order of first occurrence, with the number of occurrences; the buckets sorted by count,
  largest first, by a stable sort; the first 20 of them.
\<close>

fun firstOccurrences :: "'a list \<Rightarrow> 'a list" where
  "firstOccurrences [] = []"
| "firstOccurrences (x # xs) = x # removeAll x (firstOccurrences xs)"

definition buckets :: "string list \<Rightarrow> (string \<times> nat) list" where
  "buckets ks = map (\<lambda>k. (k, count_list ks k)) (firstOccurrences ks)"

definition byCountDescending :: "(string \<times> nat) list \<Rightarrow> (string \<times> nat) list" where
  "byCountDescending bs = sort_key (\<lambda>p. - int (snd p)) bs"

definition specSortedValues :: "string list \<Rightarrow> (string \<times> nat) list" where
  "specSortedValues ks = take 20 (byCountDescending (buckets ks))"

definition asCounts :: "(string \<times> nat) list \<Rightarrow> (string \<times> countval) list" where
  "asCounts bs = map (\<lambda>p. (fst p, Count (snd p))) bs"

text \<open>The sum of the counts of a list of buckets; a count that is not a Number adds nothing.\<close>

fun countNumber :: "countval \<Rightarrow> nat" where
  "countNumber (Count n) = n"
| "countNumber (Text s) = 0"

definition sumCounts :: "(string \<times> countval) list \<Rightarrow> nat" where
  "sumCounts svs = sum_list (map (\<lambda>p. countNumber (snd p)) svs)"

section \<open>Field type detection\<close>

lemma scanValues_flags:
  "\<forall>f\<in>set fs. properties f \<noteq> None \<Longrightarrow>
   scanValues key (hn, hdec) fs =
     Inr (hn \<or> (\<exists>v\<in>set (valuesOf key fs). isNumberNotNaN v),
          hdec \<or> (\<exists>v\<in>set (valuesOf key fs). isNumberNotNaN v \<and> \<not> isInteger v))"
proof (induction fs arbitrary: hn hdec)
  case Nil
  then show ?case by (simp add: valuesOf_def)
next
  case (Cons f fs)
  then obtain kvs where p: "properties f = Some kvs" by auto
  from Cons.prems have rest: "\<forall>f\<in>set fs. properties f \<noteq> None" by simp
  show ?case
    using Cons.IH[OF rest] p
    by (auto simp: propertyValue_def valuesOf_def)
qed

text \<open>
  C1, as stated: the values \<open>[1, "a", 3]\<close> give the field type "string". The code looks at
  Numbers only, so the string \<open>"a"\<close> leaves the flags alone and the type is "integer".
\<close>

theorem detectFieldType_mixed_counterexample:
  "detectFieldType [withProperty ''v'' (JNum (Decimal 1 0)), withProperty ''v'' (JStr ''a''),
                    withProperty ''v'' (JNum (Decimal 3 0))] ''v'' = Inr ''integer''
   \<and> detectFieldType [withProperty ''v'' (JNum (Decimal 1 0)), withProperty ''v'' (JStr ''a''),
                      withProperty ''v'' (JNum (Decimal 3 0))] ''v'' \<noteq> Inr ''string''"
  by code_simp

text \<open>
  C1, amended: where every feature has a properties object, the detected type is "string"
  exactly when no value of the field is a Number other than \<open>NaN\<close>; otherwise it is "double"
  when one of those Numbers is not an integer, and "integer" when all are. Values that are
  not Numbers never change the result.
\<close>

theorem detectFieldType_numbers_only:
  assumes "\<forall>f\<in>set fs. properties f \<noteq> None"
  shows "detectFieldType fs key =
           Inr (if \<exists>v\<in>set (valuesOf key fs). isNumberNotNaN v
                then (if \<exists>v\<in>set (valuesOf key fs). isNumberNotNaN v \<and> \<not> isInteger v
                      then ''double'' else ''integer'')
                else ''string'')"
  using scanValues_flags[OF assms, of key False False]
  by (simp add: detectFieldType_def)

theorem detectFieldType_numbers_only_witness:
  "detectFieldType [withProperty ''v'' (JNum (Decimal 1 0)), withProperty ''v'' (JStr ''a''),
                    withProperty ''v'' (JNum (Decimal 25 (- 1)))] ''v'' = Inr ''double''"
proof -
  have h: "\<forall>f\<in>set [withProperty ''v'' (JNum (Decimal 1 0)), withProperty ''v'' (JStr ''a''),
               withProperty ''v'' (JNum (Decimal 25 (- 1)))]. properties f \<noteq> None"
    by (simp add: withProperty_def)
  show ?thesis
    using detectFieldType_numbers_only[OF h, of "''v''"]
    by (simp add: valuesOf_def withProperty_def stripZeros.simps)
qed

section \<open>Field statistics\<close>

text \<open>
  C2: the six values \<open>"A", "A", "B", null, "", "C"\<close> give \<open>totalFeatures = 6\<close>,
  \<open>validCount = 4\<close>, \<open>uniqueCount = 3\<close> and the buckets \<open>("A", 2), ("B", 1), ("C", 1)\<close>.
  For every feature list, \<open>validCount\<close> counts the values other than \<open>null\<close>, \<open>undefined\<close>
  and the empty string; a string of one blank is not trimmed and is counted.
\<close>

theorem analyzeFieldValues_example:
  "analyzeFieldValues
     (Some (map (\<lambda>v. [''f'' \<mapsto> v]) [JStr ''A'', JStr ''A'', JStr ''B'', JNull, JStr '''', JStr ''C'']))
     ''f''
   = Some \<lparr> totalFeatures = 6, validCount = 4, uniqueCount = 3,
            sortedValues = [(''A'', Count 2), (''B'', Count 1), (''C'', Count 1)],
            fieldName = ''f'' \<rparr>
   \<and> analyzeFieldValues (Some [[''f'' \<mapsto> JStr '' ''], Map.empty, [''f'' \<mapsto> JStr '''']]) ''f''
     = Some \<lparr> totalFeatures = 3, validCount = 1, uniqueCount = 1,
              sortedValues = [('' '', Count 1)], fieldName = ''f'' \<rparr>
   \<and> map_option validCount (analyzeFieldValues (Some fs) fld)
     = (if fs = [] then None
        else Some (length (filter (\<lambda>a. attributeValue a fld \<noteq> JNull \<and> attributeValue a fld \<noteq> JUndefined
                                        \<and> attributeValue a fld \<noteq> JStr '''') fs)))"
proof -
  have a: "analyzeFieldValues
     (Some (map (\<lambda>v. [''f'' \<mapsto> v]) [JStr ''A'', JStr ''A'', JStr ''B'', JNull, JStr '''', JStr ''C'']))
     ''f''
   = Some \<lparr> totalFeatures = 6, validCount = 4, uniqueCount = 3,
            sortedValues = [(''A'', Count 2), (''B'', Count 1), (''C'', Count 1)],
            fieldName = ''f'' \<rparr>"
    by code_simp
  have b: "analyzeFieldValues (Some [[''f'' \<mapsto> JStr '' ''], Map.empty, [''f'' \<mapsto> JStr '''']]) ''f''
     = Some \<lparr> totalFeatures = 3, validCount = 1, uniqueCount = 1,
              sortedValues = [('' '', Count 1)], fieldName = ''f'' \<rparr>"
    by code_simp
  have c: "map_option validCount (analyzeFieldValues (Some fs) fld)
     = (if fs = [] then None
        else Some (length (filter (\<lambda>a. attributeValue a fld \<noteq> JNull \<and> attributeValue a fld \<noteq> JUndefined
                                        \<and> attributeValue a fld \<noteq> JStr '''') fs)))"
    by (simp add: analyzeFieldValues_def Let_def filter_map comp_def isValidValue_def)
  show ?thesis using a b c by blast
qed

section \<open>Geometry conversion\<close>

lemma pushRings_concat: "pushRings acc (map CArr parts) = Inr (acc @ concat parts)"
  by (induction parts arbitrary: acc) simp_all

text \<open>
  C5: a multipolygon (the type name in any letter case) whose coordinates are a list of
  polygon parts, each a list of rings, converts to one polygon whose rings are the rings
  of all parts, concatenated in part-then-ring order; two parts of 2 and 3 rings give
  exactly those 5 rings in that order.
\<close>

theorem multipolygon_rings_concatenated:
  assumes "toLowerCase t = ''multipolygon''"
  shows "convertGeometry (Some \<lparr> geomType = Some t, coordinates = CArr (map CArr parts) \<rparr>)
           = Inr (Some (EsriPolygon (CArr (concat parts)) 4326))
         \<and> convertGeometry
             (Some \<lparr> geomType = Some t, coordinates = CArr [CArr [r1, r2], CArr [r3, r4, r5]] \<rparr>)
           = Inr (Some (EsriPolygon (CArr [r1, r2, r3, r4, r5]) 4326))"
proof -
  have general: "convertGeometry (Some \<lparr> geomType = Some t, coordinates = CArr (map CArr ps) \<rparr>)
           = Inr (Some (EsriPolygon (CArr (concat ps)) 4326))" for ps
    using assms by (simp add: convertGeometry_def pushRings_concat)
  from general[of "[[r1, r2], [r3, r4, r5]]"] general[of parts] show ?thesis by simp
qed

theorem multipolygon_rings_concatenated_witness:
  "convertGeometry
     (Some \<lparr> geomType = Some ''MultiPolygon'',
             coordinates = CArr [CArr [CArr [], CNum (Decimal 1 0)],
                                 CArr [CNum (Decimal 2 0), CNum (Decimal 3 0), CNum (Decimal 4 0)]] \<rparr>)
   = Inr (Some (EsriPolygon (CArr [CArr [], CNum (Decimal 1 0), CNum (Decimal 2 0),
                                   CNum (Decimal 3 0), CNum (Decimal 4 0)]) 4326))"
proof -
  have h: "toLowerCase ''MultiPolygon'' = ''multipolygon''" by (simp add: toLowerCase_def)
  show ?thesis
    using multipolygon_rings_concatenated[OF h, of "[]" "CArr []" "CNum (Decimal 1 0)"
        "CNum (Decimal 2 0)" "CNum (Decimal 3 0)" "CNum (Decimal 4 0)"]
    by simp
qed

lemma mapGraphics_append:
  "mapGraphics i (xs @ ys) =
     (case mapGraphics i xs of
        Inl e \<Rightarrow> Inl e
      | Inr gx \<Rightarrow> (case mapGraphics (i + length xs) ys of Inl e \<Rightarrow> Inl e | Inr gy \<Rightarrow> Inr (gx @ gy)))"
  by (induction xs arbitrary: i) (auto split: sum.splits)

lemma convertGeometry_unsupported:
  "unsupportedGeometry g \<Longrightarrow> typeIsString g \<Longrightarrow> convertGeometry g = Inr None"
  by (auto simp: unsupportedGeometry_def typeIsString_def convertGeometry_def recognizedTypes_def
                 Let_def split: option.splits)

text \<open>
  Where the geometry is missing, or its type is a string that is none of the six names,
  the conversion gives the null geometry without a throw, and so does the graphic; in
  the converted list the feature is dropped, and the features before and after it are
  converted at their own positions (a throw can only come from one of them).
\<close>

lemma named_unsupported_geometry_dropped:
  assumes "unsupportedGeometry (geometry f)" "typeIsString (geometry f)"
  shows "convertGeometry (geometry f) = Inr None
         \<and> map_sum id graphicGeometry (toGraphic index f) = Inr None
         \<and> convertFeatures (xs @ f # ys) =
             (case mapGraphics 0 xs of
                Inl e \<Rightarrow> Inl e
              | Inr gx \<Rightarrow>
                  (case mapGraphics (Suc (length xs)) ys of
                     Inl e \<Rightarrow> Inl e
                   | Inr gy \<Rightarrow> Inr (filter (\<lambda>g. graphicGeometry g \<noteq> None) (gx @ gy))))"
proof -
  have null: "convertGeometry (geometry f) = Inr None"
    using convertGeometry_unsupported[OF assms] .
  have dropped: "convertFeatures (xs @ f # ys) =
             (case mapGraphics 0 xs of
                Inl e \<Rightarrow> Inl e
              | Inr gx \<Rightarrow>
                  (case mapGraphics (Suc (length xs)) ys of
                     Inl e \<Rightarrow> Inl e
                   | Inr gy \<Rightarrow> Inr (filter (\<lambda>g. graphicGeometry g \<noteq> None) (gx @ gy))))"
    using null
    by (simp add: convertFeatures_def mapGraphics_append toGraphic_def split: sum.splits)
  have graphic: "map_sum id graphicGeometry (toGraphic index f) = Inr None"
    using null by (simp add: toGraphic_def)
  from null graphic dropped show ?thesis by blast
qed

lemma named_unsupported_geometry_dropped_example:
  "map_sum id (map graphicGeometry) (convertFeatures [pointFeature 1 2 [], circleFeature, bareFeature, pointFeature 3 4 []])
   = Inr [Some (EsriPoint (CNum (Decimal 1 0)) (CNum (Decimal 2 0)) 4326),
          Some (EsriPoint (CNum (Decimal 3 0)) (CNum (Decimal 4 0)) 4326)]
   \<and> map_sum id objectIds (convertFeatures [pointFeature 1 2 [], circleFeature, bareFeature, pointFeature 3 4 []])
   = Inr [Some (JNum (Decimal 1 0)), Some (JNum (Decimal 4 0))]"
proof -
  have h: "unsupportedGeometry (geometry circleFeature)" "typeIsString (geometry circleFeature)"
    by (simp_all add: unsupportedGeometry_def typeIsString_def circleFeature_def toLowerCase_def
                      recognizedTypes_def)
  show ?thesis
    using named_unsupported_geometry_dropped[OF h, of 0 "[pointFeature 1 2 []]" "[bareFeature, pointFeature 3 4 []]"]
    by (simp add: toGraphic_def convertGeometry_def pointFeature_def bareFeature_def toLowerCase_def
                  objectIds_def numberOfNat_def spreadProperties_def)
qed

text \<open>
  C6: a geometry object without a \<open>type\<close> string is a geometry of no recognized type, and
  the claim has it converted to null and dropped without a throw. The code calls
  \<open>type.toLowerCase()\<close> before the \<open>switch\<close>, so the conversion throws: the point feature
  next to it is not converted and no layer is produced. A feature without a geometry is
  converted to null and dropped, but when its properties are \<open>null\<close> and the first
  feature has a property, the field detection reads a key of \<open>null\<close> and no layer is
  produced either.
\<close>

theorem untyped_geometry_throws:
  "unsupportedGeometry (geometry untypedFeature)
   \<and> convertGeometry (geometry untypedFeature) = Inl TypeError
   \<and> convertFeatures [pointFeature 1 2 [], untypedFeature] = Inl TypeError
   \<and> addGeoJSONToMap 0 [pointFeature 1 2 [], untypedFeature] ''layer'' = Inl TypeError
   \<and> unsupportedGeometry (geometry bareFeature)
   \<and> map_sum id (map graphicGeometry)
        (convertFeatures [pointFeature 1 2 [(''n'', JStr ''a'')], bareFeature])
      = Inr [Some (EsriPoint (CNum (Decimal 1 0)) (CNum (Decimal 2 0)) 4326)]
   \<and> addGeoJSONToMap 0 [pointFeature 1 2 [(''n'', JStr ''a'')], bareFeature] ''layer'' = Inl TypeError"
  by (simp add: unsupportedGeometry_def untypedFeature_def bareFeature_def pointFeature_def
                convertGeometry_def convertFeatures_def toGraphic_def toLowerCase_def
                addGeoJSONToMap_def buildFields_def detectFieldType_def propertyValue_def)

lemma toGraphic_objectId:
  "toGraphic i f = Inr g \<Longrightarrow> k = ''OBJECTID'' \<or> k = ''FID'' \<Longrightarrow>
   attributes g k =
     (case spreadProperties (properties f) k of None \<Rightarrow> Some (numberOfNat (i + 1)) | Some v \<Rightarrow> Some v)"
  by (auto simp: toGraphic_def map_add_def split: sum.splits option.splits)

lemma toGraphic_geometry:
  "toGraphic i f = Inr g \<Longrightarrow> (graphicGeometry g \<noteq> None) = keptFeature f"
  by (auto simp: toGraphic_def keptFeature_def split: sum.splits option.splits)

lemma kept_ids_enumerate:
  assumes "mapGraphics i fs = Inr gs"
      and "k = ''OBJECTID'' \<or> k = ''FID''"
  shows "map (\<lambda>g. attributes g k) (filter (\<lambda>g. graphicGeometry g \<noteq> None) gs)
         = map (\<lambda>p. case spreadProperties (properties (snd p)) k of
                       None \<Rightarrow> Some (numberOfNat (fst p + 1)) | Some v \<Rightarrow> Some v)
               (filter (\<lambda>p. keptFeature (snd p)) (enumerate i fs))"
  using assms
proof (induction fs arbitrary: i gs)
  case Nil
  then show ?case by simp
next
  case (Cons f fs)
  from Cons.prems(1) obtain g gs' where g: "toGraphic i f = Inr g"
    and gs': "mapGraphics (Suc i) fs = Inr gs'" and gs: "gs = g # gs'"
    by (auto split: sum.splits)
  show ?case
    using Cons.IH[OF gs' Cons.prems(2)] toGraphic_objectId[OF g Cons.prems(2)]
          toGraphic_geometry[OF g] gs
    by (simp split: option.splits)
qed

lemma numberOfNat_inj: "numberOfNat a = numberOfNat b \<Longrightarrow> a = b"
  by (simp add: numberOfNat_def)

lemma kept_positions_gap:
  assumes "i < k" "k < length fs" "\<not> keptFeature (fs ! i)" "keptFeature (fs ! k)"
  shows "map (\<lambda>p. Some (numberOfNat (fst p + 1))) (filter (\<lambda>p. keptFeature (snd p)) (enumerate 0 fs))
         \<noteq> oneToN m"
proof
  let ?ids = "map (\<lambda>p. Some (numberOfNat (fst p + 1))) (filter (\<lambda>p. keptFeature (snd p)) (enumerate 0 fs))"
  assume eq: "?ids = oneToN m"
  have "(k, fs ! k) \<in> set (enumerate 0 fs)"
    using assms(2) by (simp add: in_set_enumerate_eq)
  then have "Some (numberOfNat (k + 1)) \<in> set ?ids"
    using assms(4) by force
  with eq have "Some (numberOfNat (k + 1)) \<in> set (oneToN m)"
    by simp
  then have "k < m"
    by (auto simp: oneToN_def dest: numberOfNat_inj)
  then have "i < m" using assms(1) by simp
  then have "Some (numberOfNat (i + 1)) \<in> set ?ids"
    unfolding eq by (auto simp: oneToN_def)
  then obtain p where p: "p \<in> set (enumerate 0 fs)" "keptFeature (snd p)" "numberOfNat (fst p + 1) = numberOfNat (i + 1)"
    by auto
  then have "fst p = i" by (auto dest: numberOfNat_inj)
  with p(1) have "snd p = fs ! i" by (auto simp: in_set_enumerate_eq)
  with p(2) assms(3) show False by simp
qed

text \<open>
  C10, amended: the graphics kept are those of the features whose geometry converts, in
  input order, and the \<open>OBJECTID\<close> and \<open>FID\<close> of each are the feature's 1-based position in
  the input array (counted before the dropped ones are filtered out) unless the
  feature's own properties hold that key, whose value then replaces the position. Where
  no feature has an \<open>OBJECTID\<close> property and a dropped feature precedes a kept one, the
  \<open>OBJECTID\<close>s of the layer are not \<open>1, 2, ..., n\<close>.
\<close>

theorem objectIds_are_positions:
  assumes "convertFeatures fs = Inr gs"
  shows "objectIds gs = map (\<lambda>p. case spreadProperties (properties (snd p)) ''OBJECTID'' of
                                    None \<Rightarrow> Some (numberOfNat (fst p + 1)) | Some v \<Rightarrow> Some v)
                            (filter (\<lambda>p. keptFeature (snd p)) (enumerate 0 fs))
         \<and> fids gs = map (\<lambda>p. case spreadProperties (properties (snd p)) ''FID'' of
                                    None \<Rightarrow> Some (numberOfNat (fst p + 1)) | Some v \<Rightarrow> Some v)
                            (filter (\<lambda>p. keptFeature (snd p)) (enumerate 0 fs))
         \<and> ((\<forall>f\<in>set fs. spreadProperties (properties f) ''OBJECTID'' = None) \<longrightarrow>
              (\<forall>i k. i < k \<and> k < length fs \<and> \<not> keptFeature (fs ! i) \<and> keptFeature (fs ! k)
                  \<longrightarrow> objectIds gs \<noteq> oneToN (length gs)))"
proof -
  from assms(1) obtain gs' where gs': "mapGraphics 0 fs = Inr gs'"
    and gs: "gs = filter (\<lambda>g. graphicGeometry g \<noteq> None) gs'"
    by (auto simp: convertFeatures_def split: sum.splits)
  have a: "objectIds gs = map (\<lambda>p. case spreadProperties (properties (snd p)) ''OBJECTID'' of
                                    None \<Rightarrow> Some (numberOfNat (fst p + 1)) | Some v \<Rightarrow> Some v)
                            (filter (\<lambda>p. keptFeature (snd p)) (enumerate 0 fs))"
    unfolding objectIds_def gs using kept_ids_enumerate[OF gs', of "''OBJECTID''"] by simp
  have b: "fids gs = map (\<lambda>p. case spreadProperties (properties (snd p)) ''FID'' of
                                    None \<Rightarrow> Some (numberOfNat (fst p + 1)) | Some v \<Rightarrow> Some v)
                            (filter (\<lambda>p. keptFeature (snd p)) (enumerate 0 fs))"
    unfolding fids_def gs using kept_ids_enumerate[OF gs', of "''FID''"] by simp
  have c: "objectIds gs \<noteq> oneToN (length gs)"
    if none: "\<forall>f\<in>set fs. spreadProperties (properties f) ''OBJECTID'' = None"
      and ik: "i < k" "k < length fs" "\<not> keptFeature (fs ! i)" "keptFeature (fs ! k)" for i k
  proof -
    have "\<forall>p\<in>set (enumerate 0 fs). spreadProperties (properties (snd p)) ''OBJECTID'' = None"
      using none by (auto simp: in_set_enumerate_eq)
    then have "objectIds gs = map (\<lambda>p. Some (numberOfNat (fst p + 1)))
                            (filter (\<lambda>p. keptFeature (snd p)) (enumerate 0 fs))"
      unfolding a by (intro map_cong) auto
    then show ?thesis using kept_positions_gap[OF ik] by simp
  qed
  from a b c show ?thesis by blast
qed

text \<open>
  C10, as stated: every produced graphic's \<open>OBJECTID\<close> is its feature's position. A single
  point feature whose properties hold \<open>OBJECTID = 7\<close> yields a graphic with \<open>OBJECTID\<close> 7,
  not 1: the properties are spread after the two generated keys.
\<close>

theorem objectIds_counterexample:
  "map_sum id objectIds (convertFeatures [pointFeature 1 2 [(''OBJECTID'', JNum (Decimal 7 0))]])
     = Inr [Some (JNum (Decimal 7 0))]
   \<and> map_sum id objectIds (convertFeatures [pointFeature 1 2 [(''OBJECTID'', JNum (Decimal 7 0))]])
     \<noteq> Inr (oneToN 1)"
  by (simp add: convertFeatures_def toGraphic_def convertGeometry_def pointFeature_def toLowerCase_def
                  objectIds_def numberOfNat_def spreadProperties_def oneToN_def)

theorem objectIds_are_positions_witness:
  "objectIds (projr (convertFeatures [circleFeature, pointFeature 1 2 [], pointFeature 3 4 [(''n'', JStr ''a'')]]))
     = [Some (JNum (Decimal 2 0)), Some (JNum (Decimal 3 0))]
   \<and> objectIds (projr (convertFeatures [circleFeature, pointFeature 1 2 [], pointFeature 3 4 [(''n'', JStr ''a'')]]))
     \<noteq> oneToN 2"
proof -
  let ?fs = "[circleFeature, pointFeature 1 2 [], pointFeature 3 4 [(''n'', JStr ''a'')]]"
  let ?gs = "projr (convertFeatures ?fs)"
  have conv: "convertFeatures ?fs = Inr ?gs"
    by (simp add: convertFeatures_def toGraphic_def convertGeometry_def pointFeature_def
                  circleFeature_def toLowerCase_def)
  have len: "length ?gs = 2"
    by (simp add: convertFeatures_def toGraphic_def convertGeometry_def pointFeature_def
                  circleFeature_def toLowerCase_def)
  have h: "\<forall>f\<in>set ?fs. spreadProperties (properties f) ''OBJECTID'' = None"
    by (simp add: spreadProperties_def pointFeature_def circleFeature_def)
  have k: "\<not> keptFeature (?fs ! 0)" "keptFeature (?fs ! 1)"
    by (simp_all add: keptFeature_def convertGeometry_def pointFeature_def circleFeature_def toLowerCase_def)
  from objectIds_are_positions[OF conv] h have
    a: "objectIds ?gs = map (\<lambda>p. case spreadProperties (properties (snd p)) ''OBJECTID'' of
                                    None \<Rightarrow> Some (numberOfNat (fst p + 1)) | Some v \<Rightarrow> Some v)
                            (filter (\<lambda>p. keptFeature (snd p)) (enumerate 0 ?fs))"
    and c: "\<forall>i k. i < k \<and> k < length ?fs \<and> \<not> keptFeature (?fs ! i) \<and> keptFeature (?fs ! k)
                  \<longrightarrow> objectIds ?gs \<noteq> oneToN (length ?gs)"
    by blast+
  have "objectIds ?gs \<noteq> oneToN 2"
    using c[rule_format, of 0 1] k len by simp
  moreover have "objectIds ?gs = [Some (JNum (Decimal 2 0)), Some (JNum (Decimal 3 0))]"
    unfolding a
    by (simp add: keptFeature_def convertGeometry_def pointFeature_def circleFeature_def
                  toLowerCase_def numberOfNat_def spreadProperties_def)
  ultimately show ?thesis by simp
qed


section \<open>Classification\<close>

lemma no_valid_values_no_buckets:
  assumes "analyzeFieldValues r fld = Some stats" "validCount stats = 0"
  shows "uniqueCount stats = 0"
proof -
  from assms(1) obtain features where r: "r = Some features" and ne: "features \<noteq> []"
    by (auto simp: analyzeFieldValues_def split: option.splits if_splits)
  let ?valid = "filter isValidValue (map (\<lambda>a. attributeValue a fld) features)"
  from assms(1) r ne have vc: "validCount stats = length ?valid"
    and uc: "uniqueCount stats = length (entries (tally ?valid))"
    by (auto simp: analyzeFieldValues_def Let_def)
  from vc assms(2) have "length ?valid = 0" by simp
  then have "?valid = []" by (rule iffD1[OF length_0_conv])
  then show ?thesis unfolding uc by (simp add: tally_def entries_def)
qed

text \<open>
  C7: when no field is selected, no layer is open for classification, or the statistics
  of the selected field are unavailable or count no valid value, applying the
  classification shows a message (an alert) and changes nothing else but the apply
  button: the layer with its renderer, the legend and the panel stay as they were.
\<close>

theorem classification_precondition_aborts:
  assumes "fieldSelect st = [] \<or> currentClassificationLayer st = None
           \<or> (\<exists>layer. currentClassificationLayer st = Some layer
                  \<and> (case analyzeFieldValues (q layer (fieldSelect st)) (fieldSelect st) of
                        None \<Rightarrow> True
                      | Some stats \<Rightarrow> validCount stats = 0))"
  shows "currentClassificationLayer (applyFieldClassification q st) = currentClassificationLayer st
         \<and> alerts (applyFieldClassification q st)
             = alerts st @ [if fieldSelect st = [] \<or> currentClassificationLayer st = None
                            then PleaseChooseField else NoValidValues]
         \<and> (applyFieldClassification q st)
               \<lparr> alerts := alerts st, applyButtonText := applyButtonText st,
                 applyButtonDisabled := applyButtonDisabled st \<rparr> = st"
proof (cases "fieldSelect st = [] \<or> currentClassificationLayer st = None")
  case True
  then show ?thesis
    by (auto simp: applyFieldClassification_def Let_def split: option.splits)
next
  case False
  with assms obtain layer where l: "currentClassificationLayer st = Some layer"
    and a: "case analyzeFieldValues (q layer (fieldSelect st)) (fieldSelect st) of
              None \<Rightarrow> True | Some stats \<Rightarrow> validCount stats = 0"
    by auto
  show ?thesis
  proof (cases "analyzeFieldValues (q layer (fieldSelect st)) (fieldSelect st)")
    case None
    with False l show ?thesis
      by (simp add: applyFieldClassification_def Let_def)
  next
    case (Some stats)
    with a have "uniqueCount stats = 0"
      using no_valid_values_no_buckets[OF Some] by simp
    with False l Some show ?thesis
      by (simp add: applyFieldClassification_def Let_def)
  qed
qed

theorem classification_precondition_aborts_witness:
  "currentClassificationLayer (applyFieldClassification (answering [JNull, JStr '''']) (sampleState ''f''))
     = Some sampleLayer
   \<and> alerts (applyFieldClassification (answering [JNull, JStr '''']) (sampleState ''f'')) = [NoValidValues]
   \<and> legendHidden (applyFieldClassification (answering [JNull, JStr '''']) (sampleState ''f''))"
proof -
  have v: "analyzeFieldValues (answering [JNull, JStr ''''] sampleLayer ''f'') ''f''
           = Some \<lparr> totalFeatures = 2, validCount = 0, uniqueCount = 0, sortedValues = [], fieldName = ''f'' \<rparr>"
    by code_simp
  have h: "fieldSelect (sampleState ''f'') = [] \<or> currentClassificationLayer (sampleState ''f'') = None
           \<or> (\<exists>layer. currentClassificationLayer (sampleState ''f'') = Some layer
                  \<and> (case analyzeFieldValues (answering [JNull, JStr ''''] layer (fieldSelect (sampleState ''f'')))
                             (fieldSelect (sampleState ''f'')) of
                        None \<Rightarrow> True
                      | Some stats \<Rightarrow> validCount stats = 0))"
    using v by (simp add: sampleState_def)
  from classification_precondition_aborts[of "sampleState ''f''" "answering [JNull, JStr '''']", OF h] have
    a: "currentClassificationLayer (applyFieldClassification (answering [JNull, JStr '''']) (sampleState ''f''))
         = currentClassificationLayer (sampleState ''f'')"
    and b: "alerts (applyFieldClassification (answering [JNull, JStr '''']) (sampleState ''f''))
             = alerts (sampleState ''f'') @ [if fieldSelect (sampleState ''f'') = [] \<or> currentClassificationLayer (sampleState ''f'') = None
                            then PleaseChooseField else NoValidValues]"
    and c: "(applyFieldClassification (answering [JNull, JStr '''']) (sampleState ''f''))
               \<lparr> alerts := alerts (sampleState ''f''), applyButtonText := applyButtonText (sampleState ''f''),
                 applyButtonDisabled := applyButtonDisabled (sampleState ''f'') \<rparr> = sampleState ''f''"
    by blast+
  from c have "legendHidden (applyFieldClassification (answering [JNull, JStr '''']) (sampleState ''f''))
        = legendHidden (sampleState ''f'')"
    by (metis appState.select_convs(8) appState.surjective appState.update_convs(3,4,5))
  with a b show ?thesis by (simp add: sampleState_def)
qed

lemma generateColors_nth:
  "i < n \<Longrightarrow> generateColors n ! i = colors ! (i mod length colors)"
  by (simp add: generateColors_def)

lemma uniqueValueInfos_nth:
  assumes "i < length svs"
  shows "uniqueValueInfos gt (generateColors (length svs)) svs ! i =
           \<lparr> infoValue = fst (svs ! i),
             infoSymbol = (if gt = ''point'' then SimpleMarker (colors ! (i mod length colors)) 8 [255, 255, 255] 1
                           else if gt = ''polyline'' then SimpleLine (colors ! (i mod length colors)) 3
                           else SimpleFill (colors ! (i mod length colors) @ [7 / 10])
                                           (colors ! (i mod length colors)) 2),
             infoLabel = fst (svs ! i) @ '' ('' @ countToString (snd (svs ! i)) @ '')'' \<rparr>"
  using assms
  by (simp add: uniqueValueInfos_def nth_enumerate_eq generateColors_nth Let_def split_beta)

lemma classified_rules:
  assumes "currentClassificationLayer st = Some l" "fieldSelect st \<noteq> []"
    "analyzeFieldValues (q l (fieldSelect st)) (fieldSelect st) = Some s" "uniqueCount s \<noteq> 0"
  shows "layerRules (applyFieldClassification q st)
         = uniqueValueInfos (geometryType l) (generateColors (length (sortedValues s))) (sortedValues s)"
  using assms
  by (simp add: applyFieldClassification_def Let_def layerRules_def createMapLegend_def)

text \<open>
  C8: the unique-value rules depend on the sorted values and the geometry type only: two
  classifications whose statistics have the same sorted values, on layers of the same
  geometry type, produce the same ordered rule list, and the rule at position \<open>i\<close> is
  built from \<open>colors[i mod colors.length]\<close>, the value and its count.
\<close>

theorem renderer_rules_deterministic:
  assumes "currentClassificationLayer st1 = Some l1" "fieldSelect st1 \<noteq> []"
      and "analyzeFieldValues (q1 l1 (fieldSelect st1)) (fieldSelect st1) = Some s1" "uniqueCount s1 \<noteq> 0"
      and "currentClassificationLayer st2 = Some l2" "fieldSelect st2 \<noteq> []"
      and "analyzeFieldValues (q2 l2 (fieldSelect st2)) (fieldSelect st2) = Some s2" "uniqueCount s2 \<noteq> 0"
      and "sortedValues s1 = sortedValues s2" "geometryType l1 = geometryType l2"
  shows "layerRules (applyFieldClassification q1 st1) = layerRules (applyFieldClassification q2 st2)
         \<and> length (layerRules (applyFieldClassification q1 st1)) = length (sortedValues s1)
         \<and> (\<forall>i<length (sortedValues s1).
               layerRules (applyFieldClassification q1 st1) ! i =
                 \<lparr> infoValue = fst (sortedValues s1 ! i),
                   infoSymbol =
                     (if geometryType l1 = ''point''
                      then SimpleMarker (colors ! (i mod length colors)) 8 [255, 255, 255] 1
                      else if geometryType l1 = ''polyline''
                      then SimpleLine (colors ! (i mod length colors)) 3
                      else SimpleFill (colors ! (i mod length colors) @ [7 / 10])
                                      (colors ! (i mod length colors)) 2),
                   infoLabel = fst (sortedValues s1 ! i) @ '' (''
                               @ countToString (snd (sortedValues s1 ! i)) @ '')'' \<rparr>)"
proof -
  have r1: "layerRules (applyFieldClassification q1 st1)
         = uniqueValueInfos (geometryType l1) (generateColors (length (sortedValues s1))) (sortedValues s1)"
    using classified_rules[of st1 l1 q1 s1] assms(1-4) by simp
  have r2: "layerRules (applyFieldClassification q2 st2)
         = uniqueValueInfos (geometryType l2) (generateColors (length (sortedValues s2))) (sortedValues s2)"
    using classified_rules[of st2 l2 q2 s2] assms(5-8) by simp
  have len: "length (layerRules (applyFieldClassification q1 st1)) = length (sortedValues s1)"
    unfolding r1 by (simp add: uniqueValueInfos_def)
  show ?thesis
    using r1 r2 len assms(9,10) uniqueValueInfos_nth[of _ "sortedValues s1" "geometryType l1"]
    by simp
qed


theorem renderer_rules_deterministic_witness:
  "layerRules (applyFieldClassification (answering [JStr ''A'', JStr ''A'', JStr ''B'']) (sampleState ''f''))
     = layerRules (applyFieldClassification (answering [JStr ''A'', JStr ''B'', JNull, JStr ''A''])
                     (sampleState ''g''))
   \<and> layerRules (applyFieldClassification (answering [JStr ''A'', JStr ''A'', JStr ''B'']) (sampleState ''f'')) ! 1
     = \<lparr> infoValue = ''B'', infoSymbol = SimpleFill [34, 197, 94, 7 / 10] [34, 197, 94] 2,
         infoLabel = ''B (1)'' \<rparr>"
proof -
  let ?s1 = "\<lparr> totalFeatures = 3, validCount = 3, uniqueCount = 2,
               sortedValues = [(''A'', Count 2), (''B'', Count 1)], fieldName = ''f'' \<rparr>"
  let ?s2 = "\<lparr> totalFeatures = 4, validCount = 3, uniqueCount = 2,
               sortedValues = [(''A'', Count 2), (''B'', Count 1)], fieldName = ''g'' \<rparr>"
  have a1: "analyzeFieldValues (answering [JStr ''A'', JStr ''A'', JStr ''B''] sampleLayer ''f'') ''f'' = Some ?s1"
    by code_simp
  have a2: "analyzeFieldValues (answering [JStr ''A'', JStr ''B'', JNull, JStr ''A''] sampleLayer ''g'') ''g''
            = Some ?s2"
    by code_simp
  have l: "currentClassificationLayer (sampleState ''f'') = Some sampleLayer"
    "currentClassificationLayer (sampleState ''g'') = Some sampleLayer"
    by (simp_all add: sampleState_def)
  have f: "fieldSelect (sampleState ''f'') = ''f''" "fieldSelect (sampleState ''g'') = ''g''"
    by (simp_all add: sampleState_def)
  have T: "layerRules (applyFieldClassification (answering [JStr ''A'', JStr ''A'', JStr ''B'']) (sampleState ''f''))
          = layerRules (applyFieldClassification (answering [JStr ''A'', JStr ''B'', JNull, JStr ''A''])
                     (sampleState ''g''))
         \<and> length (layerRules (applyFieldClassification (answering [JStr ''A'', JStr ''A'', JStr ''B'']) (sampleState ''f'')))
           = length (sortedValues ?s1)
         \<and> (\<forall>i<length (sortedValues ?s1).
               layerRules (applyFieldClassification (answering [JStr ''A'', JStr ''A'', JStr ''B'']) (sampleState ''f'')) ! i =
                 \<lparr> infoValue = fst (sortedValues ?s1 ! i),
                   infoSymbol =
                     (if geometryType sampleLayer = ''point''
                      then SimpleMarker (colors ! (i mod length colors)) 8 [255, 255, 255] 1
                      else if geometryType sampleLayer = ''polyline''
                      then SimpleLine (colors ! (i mod length colors)) 3
                      else SimpleFill (colors ! (i mod length colors) @ [7 / 10])
                                      (colors ! (i mod length colors)) 2),
                   infoLabel = fst (sortedValues ?s1 ! i) @ '' (''
                               @ countToString (snd (sortedValues ?s1 ! i)) @ '')'' \<rparr>)"
    by (rule renderer_rules_deterministic[of "sampleState ''f''" sampleLayer
        "answering [JStr ''A'', JStr ''A'', JStr ''B'']" ?s1
        "sampleState ''g''" sampleLayer "answering [JStr ''A'', JStr ''B'', JNull, JStr ''A'']" ?s2])
       (simp_all add: l f a1 a2)
  have one: "(1::nat) < length (sortedValues ?s1)" by simp
  note at1 = T[THEN conjunct2, THEN conjunct2, rule_format, OF one]
  have c: "colors ! (1 mod length colors) = [34, 197, 94]"
    by (simp add: colors_def)
  show ?thesis
    using T[THEN conjunct1] at1
    unfolding c by (simp add: sampleLayer_def natToString.simps digitChar_def)
qed


subsection \<open>The tally and the order of its keys\<close>

lemma firstOccurrences_set [simp]: "set (firstOccurrences xs) = set xs"
  by (induction xs) auto

lemma firstOccurrences_distinct [simp]: "distinct (firstOccurrences xs)"
  by (induction xs) (auto simp: distinct_removeAll)

lemma firstOccurrences_snoc:
  "firstOccurrences (xs @ [k]) = (if k \<in> set xs then firstOccurrences xs else firstOccurrences xs @ [k])"
  by (induction xs) auto

lemma not_inherited:
  "k \<notin> set inheritedNames \<longleftrightarrow> k \<noteq> ''__proto__'' \<and> map_of objectPrototypeFunctions k = None"
  by (auto simp: inheritedNames_def map_of_eq_None_iff)

lemma update_absent_appends:
  "k \<notin> fst ` set al \<Longrightarrow> AList.update k v al = al @ [(k, v)]"
  by (induction al) auto

lemma countKey_own:
  "map_of vc k = Some (Count n) \<Longrightarrow> countKey vc k = AList.update k (Count (n + 1)) vc"
  by (simp add: countKey_def readProperty_def)

lemma countKey_absent:
  assumes "map_of vc k = None" "k \<notin> set inheritedNames"
  shows "countKey vc k = vc @ [(k, Count 1)]"
proof -
  from assms(2) have "k \<noteq> ''__proto__''" "map_of objectPrototypeFunctions k = None"
    by (simp_all add: not_inherited)
  with assms(1) have "readProperty vc k = Absent"
    by (simp add: readProperty_def)
  moreover from assms(1) have "k \<notin> fst ` set vc"
    by (simp add: map_of_eq_None_iff)
  ultimately show ?thesis
    by (simp add: countKey_def update_absent_appends)
qed

lemma update_buckets:
  assumes "k \<in> set xs" "distinct xs"
  shows "AList.update k (Count (g k + 1)) (map (\<lambda>x. (x, Count (g x))) xs)
         = map (\<lambda>x. (x, Count (if x = k then g x + 1 else g x))) xs"
  using assms by (induction xs) auto

lemma tally_ordinary:
  "set ks \<inter> set inheritedNames = {} \<Longrightarrow> foldl countKey [] ks = asCounts (buckets ks)"
proof (induction ks rule: rev_induct)
  case Nil
  then show ?case by (simp add: asCounts_def buckets_def)
next
  case (snoc k ks)
  then have IH: "foldl countKey [] ks = map (\<lambda>x. (x, Count (count_list ks x))) (firstOccurrences ks)"
    and k: "k \<notin> set inheritedNames"
    by (auto simp: asCounts_def buckets_def comp_def)
  show ?case
  proof (cases "k \<in> set ks")
    case True
    then have "map_of (foldl countKey [] ks) k = Some (Count (count_list ks k))"
      unfolding IH by (simp add: map_of_map_restrict)
    then have "foldl countKey [] (ks @ [k]) = AList.update k (Count (count_list ks k + 1)) (foldl countKey [] ks)"
      by (simp add: countKey_own)
    also have "\<dots> = map (\<lambda>x. (x, Count (if x = k then count_list ks x + 1 else count_list ks x))) (firstOccurrences ks)"
      unfolding IH using True by (intro update_buckets) simp_all
    finally show ?thesis
      using True by (simp add: asCounts_def buckets_def firstOccurrences_snoc comp_def)
  next
    case False
    then have "map_of (foldl countKey [] ks) k = None"
      unfolding IH by (simp add: map_of_eq_None_iff image_image)
    then have "foldl countKey [] (ks @ [k]) = foldl countKey [] ks @ [(k, Count 1)]"
      using k by (simp add: countKey_absent)
    then show ?thesis
      unfolding IH using False
      by (auto simp: asCounts_def buckets_def firstOccurrences_snoc comp_def)
  qed
qed


lemma countKey_other:
  "x \<noteq> k \<Longrightarrow> map_of (countKey vc x) k = map_of vc k"
  by (auto simp: countKey_def update_conv' split: propertyRead.splits)

lemma bucket_of_ordinary_key:
  assumes "k \<notin> set inheritedNames"
  shows "map_of (foldl countKey [] ks) k = (if k \<in> set ks then Some (Count (count_list ks k)) else None)"
proof (induction ks rule: rev_induct)
  case Nil
  then show ?case by simp
next
  case (snoc x ks)
  show ?case
  proof (cases "x = k")
    case False
    then show ?thesis using snoc by (simp add: countKey_other)
  next
    case True
    show ?thesis
    proof (cases "k \<in> set ks")
      case True
      with snoc have "map_of (foldl countKey [] ks) k = Some (Count (count_list ks k))" by simp
      then show ?thesis
        using \<open>x = k\<close> by (simp add: countKey_own update_conv')
    next
      case False
      with snoc have "map_of (foldl countKey [] ks) k = None" by simp
      then show ?thesis
        using \<open>x = k\<close> False assms by (simp add: countKey_absent map_add_def)
    qed
  qed
qed

lemma asCounts_simps [simp]:
  "asCounts [] = []"
  "asCounts (b # bs) = (fst b, Count (snd b)) # asCounts bs"
  "asCounts (bs @ cs) = asCounts bs @ asCounts cs"
  "take n (asCounts bs) = asCounts (take n bs)"
  "length (asCounts bs) = length bs"
  by (simp_all add: asCounts_def take_map)

lemma insertBy_counts:
  "insertBy compareCounts (fst x, Count (snd x)) (asCounts ys)
   = asCounts (insort_key (\<lambda>p. - int (snd p)) x ys)"
  by (induction ys) (auto simp: compareCounts_def)

lemma sortBy_counts:
  "sortBy compareCounts (asCounts bs) = asCounts (byCountDescending bs)"
  unfolding sortBy_def byCountDescending_def sort_key_def
  by (induction bs) (simp_all add: insertBy_counts)

lemma insort_key_map:
  "insort_key g (f x) (map f xs) = map f (insort_key (\<lambda>y. g (f y)) x xs)"
  by (induction xs) auto

lemma sort_key_map:
  "sort_key g (map f xs) = map f (sort_key (\<lambda>y. g (f y)) xs)"
  by (induction xs) (simp_all add: insort_key_map)

lemma entries_counts:
  "entries (asCounts bs) = asCounts (entries bs)"
  by (simp add: entries_def asCounts_def filter_map comp_def sort_key_map)

lemma analyzeFieldValues_ordinary:
  assumes "analyzeFieldValues (Some features) fld = Some stats"
      and "set (validKeys features fld) \<inter> set inheritedNames = {}"
  shows "sortedValues stats = asCounts (take 20 (byCountDescending (entries (buckets (validKeys features fld)))))"
    and "uniqueCount stats = length (buckets (validKeys features fld))"
    and "validCount stats = length (validKeys features fld)"
proof -
  from assms(1) have ne: "features \<noteq> []"
    by (auto simp: analyzeFieldValues_def split: if_splits)
  have t: "tally (filter isValidValue (map (\<lambda>a. attributeValue a fld) features))
           = asCounts (buckets (validKeys features fld))"
    using tally_ordinary[OF assms(2)] by (simp add: tally_def validKeys_def)
  from assms(1) ne show "sortedValues stats = asCounts (take 20 (byCountDescending (entries (buckets (validKeys features fld)))))"
    by (auto simp: analyzeFieldValues_def Let_def t entries_counts sortBy_counts)
  from assms(1) ne show "uniqueCount stats = length (buckets (validKeys features fld))"
    by (auto simp: analyzeFieldValues_def Let_def t entries_counts entries_def
                   sum_length_filter_compl)
  from assms(1) ne show "validCount stats = length (validKeys features fld)"
    by (auto simp: analyzeFieldValues_def Let_def validKeys_def)
qed


lemma entries_without_index_keys:
  "\<forall>p\<in>set bs. \<not> isArrayIndex (fst p) \<Longrightarrow> entries bs = bs"
  by (simp add: entries_def filter_empty_conv filter_id_conv)

lemma byCountDescending_sorted:
  "sorted_wrt (\<lambda>a b. snd b \<le> snd a) (byCountDescending bs)"
proof -
  have "sorted (map (\<lambda>p. - int (snd p)) (byCountDescending bs))"
    unfolding byCountDescending_def by (rule sorted_sort_key)
  then show ?thesis
    by (simp add: sorted_map)
qed

lemma byCountDescending_stable:
  "filter (\<lambda>p. snd p = n) (byCountDescending bs) = filter (\<lambda>p. snd p = n) bs"
  using sort_key_stable[of "\<lambda>p. - int (snd p)" "- int n" bs]
  by (simp add: byCountDescending_def)


text \<open>
  C3, as stated: among buckets of equal count the order is that of first occurrence, also
  for keys that look like numbers. For the values \<open>"10", "2"\<close> the code returns the bucket
  of \<open>"2"\<close> before that of \<open>"10"\<close>, where first-occurrence order puts \<open>"10"\<close> first: a
  plain object lists its array-index keys first, in ascending numeric order.
\<close>

theorem sortedValues_numeric_keys_counterexample:
  "analyzeFieldValues (Some [[''f'' \<mapsto> JStr ''10''], [''f'' \<mapsto> JStr ''2'']]) ''f''
     = Some \<lparr> totalFeatures = 2, validCount = 2, uniqueCount = 2,
              sortedValues = [(''2'', Count 1), (''10'', Count 1)], fieldName = ''f'' \<rparr>
   \<and> asCounts (specSortedValues (validKeys [[''f'' \<mapsto> JStr ''10''], [''f'' \<mapsto> JStr ''2'']] ''f''))
     = [(''10'', Count 1), (''2'', Count 1)]"
  by code_simp


text \<open>
  C3, amended: where no valid value's string names a property inherited from
  \<open>Object.prototype\<close>, the buckets are sorted by count, largest first, by a stable sort of
  the order in which the tally object lists its keys: the keys that are array indices
  in ascending numeric order, then all other keys in order of first occurrence; the first
  20 are kept. Buckets of equal count keep that order, and when no key is an array index
  it is the order of first occurrence.
\<close>

theorem sortedValues_order:
  assumes "analyzeFieldValues (Some features) fld = Some stats"
      and "set (validKeys features fld) \<inter> set inheritedNames = {}"
  shows "sortedValues stats
           = asCounts (take 20 (byCountDescending (entries (buckets (validKeys features fld)))))
         \<and> sorted_wrt (\<lambda>a b. snd b \<le> snd a)
                      (byCountDescending (entries (buckets (validKeys features fld))))
         \<and> filter (\<lambda>p. snd p = n) (byCountDescending (entries (buckets (validKeys features fld))))
             = filter (\<lambda>p. snd p = n) (entries (buckets (validKeys features fld)))
         \<and> ((\<forall>k\<in>set (validKeys features fld). \<not> isArrayIndex k)
              \<longrightarrow> sortedValues stats = asCounts (specSortedValues (validKeys features fld)))"
proof -
  have a: "sortedValues stats
           = asCounts (take 20 (byCountDescending (entries (buckets (validKeys features fld)))))"
    using analyzeFieldValues_ordinary(1)[OF assms] .
  have d: "sortedValues stats = asCounts (specSortedValues (validKeys features fld))"
    if "\<forall>k\<in>set (validKeys features fld). \<not> isArrayIndex k"
  proof -
    from that have "\<forall>p\<in>set (buckets (validKeys features fld)). \<not> isArrayIndex (fst p)"
      by (auto simp: buckets_def)
    then show ?thesis
      unfolding a specSortedValues_def by (simp add: entries_without_index_keys)
  qed
  from a d byCountDescending_sorted byCountDescending_stable show ?thesis by blast
qed


theorem sortedValues_order_witness:
  "asCounts (take 20 (byCountDescending (entries (buckets
      (validKeys (map (\<lambda>v. [''f'' \<mapsto> v]) [JStr ''b'', JStr ''10'', JStr ''2'', JStr ''a'', JStr ''a'']) ''f'')))))
   = [(''a'', Count 2), (''2'', Count 1), (''10'', Count 1), (''b'', Count 1)]"
proof -
  let ?fs = "map (\<lambda>v. [''f'' \<mapsto> v]) [JStr ''b'', JStr ''10'', JStr ''2'', JStr ''a'', JStr ''a'']"
  let ?st = "\<lparr> totalFeatures = 5, validCount = 5, uniqueCount = 4,
               sortedValues = [(''a'', Count 2), (''2'', Count 1), (''10'', Count 1), (''b'', Count 1)],
               fieldName = ''f'' \<rparr>"
  have a: "analyzeFieldValues (Some ?fs) ''f'' = Some ?st"
    by code_simp
  have k: "validKeys ?fs ''f'' = [''b'', ''10'', ''2'', ''a'', ''a'']"
    by code_simp
  have h: "set (validKeys ?fs ''f'') \<inter> set inheritedNames = {}"
    unfolding k by (simp add: inheritedNames_def objectPrototypeFunctions_def)
  from sortedValues_order[OF a h, THEN conjunct1] show ?thesis by simp
qed


subsection \<open>Values that are kept\<close>

lemma ordinary_zero_false: "''0'' \<notin> set inheritedNames" "''false'' \<notin> set inheritedNames"
  by (simp_all add: inheritedNames_def objectPrototypeFunctions_def)

lemma count_valid_keys:
  "count_list (map String (filter isValidValue vs)) k
   = length (filter (\<lambda>v. isValidValue v \<and> String v = k) vs)"
  by (induction vs) auto

lemma bucket_of_valid_values:
  assumes "k \<notin> set inheritedNames"
  shows "map_of (tally (filter isValidValue vs)) k
         = (if length (filter (\<lambda>v. isValidValue v \<and> String v = k) vs) = 0 then None
            else Some (Count (length (filter (\<lambda>v. isValidValue v \<and> String v = k) vs))))"
proof -
  have "(k \<in> set (map String (filter isValidValue vs)))
        = (length (filter (\<lambda>v. isValidValue v \<and> String v = k) vs) \<noteq> 0)"
    by (auto simp: filter_empty_conv)
  then show ?thesis
    unfolding tally_def bucket_of_ordinary_key[OF assms] count_valid_keys by simp
qed


lemma countOfKey_values:
  "length (filter (\<lambda>v. isValidValue v \<and> String v = k) (map (\<lambda>a. attributeValue a fld) features))
   = countOfKey features fld k"
  by (simp add: countOfKey_def filter_map comp_def)

lemma countKey_keys_distinct:
  "distinct (map fst vc) \<Longrightarrow> distinct (map fst (countKey vc k))"
  by (auto simp: countKey_def distinct_update split: propertyRead.splits)

lemma tally_keys_distinct:
  "distinct (map fst acc) \<Longrightarrow> distinct (map fst (foldl countKey acc ks))"
  by (induction ks arbitrary: acc) (simp_all add: countKey_keys_distinct)

lemma insertBy_set: "set (insertBy cmp x ys) = insert x (set ys)"
  by (induction ys) auto

lemma sortBy_set: "set (sortBy cmp xs) = set xs"
  unfolding sortBy_def by (induction xs) (simp_all add: insertBy_set)

lemma insertBy_length: "length (insertBy cmp x ys) = Suc (length ys)"
  by (induction ys) auto

lemma sortBy_length: "length (sortBy cmp xs) = length xs"
  unfolding sortBy_def by (induction xs) (simp_all add: insertBy_length)

lemma entries_set: "set (entries bs) = set bs"
  by (auto simp: entries_def)

lemma entries_length: "length (entries bs) = length bs"
  by (simp add: entries_def sum_length_filter_compl)

lemma countKey_keys_subset:
  "fst ` set (countKey vc k) \<subseteq> insert k (fst ` set vc)"
  by (auto simp: countKey_def dom_update split: propertyRead.splits)

lemma tally_keys_subset:
  "fst ` set (foldl countKey acc ks) \<subseteq> fst ` set acc \<union> set ks"
proof (induction ks arbitrary: acc)
  case Nil
  then show ?case by simp
next
  case (Cons k ks)
  show ?case
    using Cons.IH[of "countKey acc k"] countKey_keys_subset[of acc k] by auto
qed

lemma returned_bucket:
  assumes "features \<noteq> []" "k \<notin> set inheritedNames"
  shows "\<exists>stats. analyzeFieldValues (Some features) fld = Some stats
           \<and> validCount stats
               = length (filter (\<lambda>a. attributeValue a fld \<noteq> JNull \<and> attributeValue a fld \<noteq> JUndefined
                                      \<and> attributeValue a fld \<noteq> JStr '''') features)
           \<and> (0 < countOfKey features fld k \<and> card (set (validKeys features fld)) \<le> 20
                \<longrightarrow> (k, Count (countOfKey features fld k)) \<in> set (sortedValues stats))
           \<and> (\<forall>c. (k, c) \<in> set (sortedValues stats)
                \<longrightarrow> c = Count (countOfKey features fld k) \<and> 0 < countOfKey features fld k)"
proof -
  let ?vs = "map (\<lambda>a. attributeValue a fld) features"
  let ?t = "tally (filter isValidValue ?vs)"
  let ?all = "sortBy compareCounts (entries ?t)"
  let ?n = "countOfKey features fld k"
  let ?stats = "\<lparr> totalFeatures = length features, validCount = length (filter isValidValue ?vs),
                  uniqueCount = length (entries ?t), sortedValues = take 20 ?all, fieldName = fld \<rparr>"
  have res: "analyzeFieldValues (Some features) fld = Some ?stats"
    using assms(1) by (simp add: analyzeFieldValues_def Let_def)
  have vc: "validCount ?stats
               = length (filter (\<lambda>a. attributeValue a fld \<noteq> JNull \<and> attributeValue a fld \<noteq> JUndefined
                                      \<and> attributeValue a fld \<noteq> JStr '''') features)"
    by (simp add: filter_map comp_def isValidValue_def)
  have bucket: "map_of ?t k = (if ?n = 0 then None else Some (Count ?n))"
    using bucket_of_valid_values[OF assms(2), of ?vs] by (simp only: countOfKey_values)
  have dist: "distinct (map fst ?t)"
    unfolding tally_def by (rule tally_keys_distinct) simp
  have member: "((k, c) \<in> set ?all) = (c = Count ?n \<and> 0 < ?n)" for c
  proof -
    have "((k, c) \<in> set ?t) = (map_of ?t k = Some c)"
      using map_of_eq_Some_iff[OF dist, of k c] by simp
    also have "\<dots> = (c = Count ?n \<and> 0 < ?n)"
      unfolding bucket by auto
    finally show ?thesis
      by (simp add: sortBy_set entries_set)
  qed
  have "length ?t = card (fst ` set ?t)"
    using dist by (metis distinct_card length_map set_map)
  also have "\<dots> \<le> card (set (validKeys features fld))"
    unfolding tally_def validKeys_def by (intro card_mono tally_keys_subset[of "[]", simplified]) simp
  finally have few: "length ?t \<le> card (set (validKeys features fld))" .
  have full: "take 20 ?all = ?all" if "card (set (validKeys features fld)) \<le> 20"
    using that few by (simp add: sortBy_length entries_length)
  have present: "(k, Count ?n) \<in> set (sortedValues ?stats)"
    if "0 < ?n" "card (set (validKeys features fld)) \<le> 20"
    using that member[of "Count ?n"] full by simp
  have only: "c = Count ?n \<and> 0 < ?n" if "(k, c) \<in> set (sortedValues ?stats)" for c
    using that member[of c] by (auto dest: in_set_takeD)
  show ?thesis
  proof (intro exI[of _ ?stats] conjI)
    show "analyzeFieldValues (Some features) fld = Some ?stats" by (rule res)
    show "validCount ?stats
               = length (filter (\<lambda>a. attributeValue a fld \<noteq> JNull \<and> attributeValue a fld \<noteq> JUndefined
                                      \<and> attributeValue a fld \<noteq> JStr '''') features)"
      by (rule vc)
    show "0 < ?n \<and> card (set (validKeys features fld)) \<le> 20 \<longrightarrow> (k, Count ?n) \<in> set (sortedValues ?stats)"
      using present by blast
    show "\<forall>c. (k, c) \<in> set (sortedValues ?stats) \<longrightarrow> c = Count ?n \<and> 0 < ?n"
      using only by blast
  qed
qed

text \<open>
  C9: the Number 0 and the boolean \<open>false\<close> are valid values with the string forms \<open>"0"\<close>
  and \<open>"false"\<close>. For every non-empty feature list the statistics are produced, their
  \<open>validCount\<close> counts every value other than \<open>null\<close>, \<open>undefined\<close> and the empty string (hence
  every 0 and \<open>false\<close>), and the bucket returned for each of the two keys counts all valid
  values of that string form (every 0, respectively every \<open>false\<close>, among them): it is in
  \<open>sortedValues\<close> whenever there are at most 20 distinct keys, and no other bucket with
  that key is ever returned.
\<close>

theorem zero_and_false_are_tallied:
  assumes "features \<noteq> []"
  shows "isValidValue (JNum (Decimal 0 e)) \<and> isValidValue (JBool False)
         \<and> String (JNum (Decimal 0 e)) = ''0'' \<and> String (JBool False) = ''false''
         \<and> length (filter (\<lambda>a. attributeValue a fld = JNum (Decimal 0 e)) features)
             \<le> countOfKey features fld ''0''
         \<and> length (filter (\<lambda>a. attributeValue a fld = JBool False) features)
             \<le> countOfKey features fld ''false''
         \<and> (\<exists>stats. analyzeFieldValues (Some features) fld = Some stats
               \<and> validCount stats
                   = length (filter (\<lambda>a. attributeValue a fld \<noteq> JNull \<and> attributeValue a fld \<noteq> JUndefined
                                          \<and> attributeValue a fld \<noteq> JStr '''') features)
               \<and> (0 < countOfKey features fld ''0'' \<and> card (set (validKeys features fld)) \<le> 20
                    \<longrightarrow> (''0'', Count (countOfKey features fld ''0'')) \<in> set (sortedValues stats))
               \<and> (\<forall>c. (''0'', c) \<in> set (sortedValues stats)
                    \<longrightarrow> c = Count (countOfKey features fld ''0'') \<and> 0 < countOfKey features fld ''0'')
               \<and> (0 < countOfKey features fld ''false'' \<and> card (set (validKeys features fld)) \<le> 20
                    \<longrightarrow> (''false'', Count (countOfKey features fld ''false'')) \<in> set (sortedValues stats))
               \<and> (\<forall>c. (''false'', c) \<in> set (sortedValues stats)
                    \<longrightarrow> c = Count (countOfKey features fld ''false'')
                        \<and> 0 < countOfKey features fld ''false''))"
proof -
  have valid: "isValidValue (JNum (Decimal 0 e))" "isValidValue (JBool False)"
    by (simp_all add: isValidValue_def)
  have keys: "String (JNum (Decimal 0 e)) = ''0''" "String (JBool False) = ''false''"
    by simp_all
  have zeros: "length (filter (\<lambda>a. attributeValue a fld = JNum (Decimal 0 e)) features)
             \<le> countOfKey features fld ''0''"
    unfolding countOfKey_def using valid(1) by (induction features) auto
  have falses: "length (filter (\<lambda>a. attributeValue a fld = JBool False) features)
             \<le> countOfKey features fld ''false''"
    unfolding countOfKey_def using valid(2) by (induction features) auto
  from returned_bucket[OF assms ordinary_zero_false(1), of fld]
  obtain s0 where s0: "analyzeFieldValues (Some features) fld = Some s0"
    "validCount s0 = length (filter (\<lambda>a. attributeValue a fld \<noteq> JNull \<and> attributeValue a fld \<noteq> JUndefined
                                          \<and> attributeValue a fld \<noteq> JStr '''') features)"
    "0 < countOfKey features fld ''0'' \<and> card (set (validKeys features fld)) \<le> 20
       \<longrightarrow> (''0'', Count (countOfKey features fld ''0'')) \<in> set (sortedValues s0)"
    "\<forall>c. (''0'', c) \<in> set (sortedValues s0)
       \<longrightarrow> c = Count (countOfKey features fld ''0'') \<and> 0 < countOfKey features fld ''0''"
    by blast
  from returned_bucket[OF assms ordinary_zero_false(2), of fld]
  obtain s1 where s1: "analyzeFieldValues (Some features) fld = Some s1"
    "0 < countOfKey features fld ''false'' \<and> card (set (validKeys features fld)) \<le> 20
       \<longrightarrow> (''false'', Count (countOfKey features fld ''false'')) \<in> set (sortedValues s1)"
    "\<forall>c. (''false'', c) \<in> set (sortedValues s1)
       \<longrightarrow> c = Count (countOfKey features fld ''false'') \<and> 0 < countOfKey features fld ''false''"
    by blast
  from s0(1) s1(1) have same: "s1 = s0" by simp
  from valid keys zeros falses s0 s1(2,3) show ?thesis
    unfolding same by blast
qed

theorem zero_and_false_are_tallied_witness:
  "analyzeFieldValues
     (Some (map (\<lambda>v. [''f'' \<mapsto> v]) [JNum (Decimal 0 0), JBool False, JStr ''0'', JNull, JNum (Decimal 0 0)]))
     ''f'' \<noteq> None
   \<and> validCount (the (analyzeFieldValues
        (Some (map (\<lambda>v. [''f'' \<mapsto> v]) [JNum (Decimal 0 0), JBool False, JStr ''0'', JNull, JNum (Decimal 0 0)]))
        ''f'')) = 4
   \<and> (''0'', Count 3) \<in> set (sortedValues (the (analyzeFieldValues
        (Some (map (\<lambda>v. [''f'' \<mapsto> v]) [JNum (Decimal 0 0), JBool False, JStr ''0'', JNull, JNum (Decimal 0 0)]))
        ''f'')))
   \<and> (''false'', Count 1) \<in> set (sortedValues (the (analyzeFieldValues
        (Some (map (\<lambda>v. [''f'' \<mapsto> v]) [JNum (Decimal 0 0), JBool False, JStr ''0'', JNull, JNum (Decimal 0 0)]))
        ''f'')))"
proof -
  let ?fs = "map (\<lambda>v. [''f'' \<mapsto> v]) [JNum (Decimal 0 0), JBool False, JStr ''0'', JNull, JNum (Decimal 0 0)]"
  have ne: "?fs \<noteq> []" by simp
  have n0: "countOfKey ?fs ''f'' ''0'' = 3"
    by (simp add: countOfKey_def attributeValue_def isValidValue_def)
  have n1: "countOfKey ?fs ''f'' ''false'' = 1"
    by (simp add: countOfKey_def attributeValue_def isValidValue_def)
  have v: "length (filter (\<lambda>a. attributeValue a ''f'' \<noteq> JNull \<and> attributeValue a ''f'' \<noteq> JUndefined
                                          \<and> attributeValue a ''f'' \<noteq> JStr '''') ?fs) = 4"
    by (simp add: attributeValue_def)
  have ks: "validKeys ?fs ''f'' = [''0'', ''false'', ''0'', ''0'']"
    by code_simp
  have few: "card (set (validKeys ?fs ''f'')) \<le> 20"
    unfolding ks by (simp add: card_insert_if)
  from zero_and_false_are_tallied[OF ne, of 0 "''f''"]
  obtain stats where s: "analyzeFieldValues (Some ?fs) ''f'' = Some stats"
    "validCount stats = length (filter (\<lambda>a. attributeValue a ''f'' \<noteq> JNull \<and> attributeValue a ''f'' \<noteq> JUndefined
                                          \<and> attributeValue a ''f'' \<noteq> JStr '''') ?fs)"
    "0 < countOfKey ?fs ''f'' ''0'' \<and> card (set (validKeys ?fs ''f'')) \<le> 20
       \<longrightarrow> (''0'', Count (countOfKey ?fs ''f'' ''0'')) \<in> set (sortedValues stats)"
    "0 < countOfKey ?fs ''f'' ''false'' \<and> card (set (validKeys ?fs ''f'')) \<le> 20
       \<longrightarrow> (''false'', Count (countOfKey ?fs ''f'' ''false'')) \<in> set (sortedValues stats)"
    by blast
  from s(3) n0 few have z: "(''0'', Count 3) \<in> set (sortedValues stats)" by simp
  from s(4) n1 few have f: "(''false'', Count 1) \<in> set (sortedValues stats)" by simp
  from s(2) v have vc: "validCount stats = 4" by simp
  from s(1) z f vc show ?thesis by simp
qed


subsection \<open>Invariants of the result\<close>

text \<open>
  C4: a field whose only value is the string \<open>"__proto__"\<close> has one valid value, but the
  tally object gets no property for it, so \<open>uniqueCount\<close> is 0 and the counts of
  \<open>sortedValues\<close> sum to 0, not to \<open>validCount\<close>.
\<close>

theorem proto_value_not_tallied:
  "analyzeFieldValues (Some [[''f'' \<mapsto> JStr ''__proto__'']]) ''f''
     = Some \<lparr> totalFeatures = 1, validCount = 1, uniqueCount = 0, sortedValues = [], fieldName = ''f'' \<rparr>
   \<and> sumCounts [] \<noteq> 1"
  by code_simp

text \<open>
  Where no valid value's string names a property inherited from \<open>Object.prototype\<close>, the
  invariants hold: at most 20 buckets, \<open>uniqueCount\<close> the number of distinct keys, and the
  counts sum to \<open>validCount\<close> exactly when there are at most 20 distinct keys.
\<close>

lemma sum_list_insort_key:
  fixes f :: "'a \<Rightarrow> nat"
  shows "sum_list (map f (insort_key g x xs)) = f x + sum_list (map f xs)"
  by (induction xs) auto

lemma sum_list_sort_key:
  fixes f :: "'a \<Rightarrow> nat"
  shows "sum_list (map f (sort_key g xs)) = sum_list (map f xs)"
  by (induction xs) (simp_all add: sum_list_insort_key)

lemma sum_list_filter_split:
  fixes f :: "'a \<Rightarrow> nat"
  shows "sum_list (map f (filter P xs)) + sum_list (map f (filter (\<lambda>x. \<not> P x) xs)) = sum_list (map f xs)"
  by (induction xs) auto

lemma entries_sum:
  fixes f :: "string \<times> 'a \<Rightarrow> nat"
  shows "sum_list (map f (entries bs)) = sum_list (map f bs)"
  by (simp add: entries_def sum_list_sort_key sum_list_filter_split)

lemma sumCounts_asCounts: "sumCounts (asCounts bs) = sum_list (map snd bs)"
  by (simp add: sumCounts_def asCounts_def comp_def)

lemma buckets_sum: "sum_list (map snd (buckets ks)) = length ks"
proof -
  have "sum_list (map snd (buckets ks)) = sum_list (map (count_list ks) (firstOccurrences ks))"
    by (simp add: buckets_def comp_def)
  also have "\<dots> = sum (count_list ks) (set ks)"
    by (simp add: sum_list_distinct_conv_sum_set)
  also have "\<dots> = length ks"
    by (rule sum_count_set) simp_all
  finally show ?thesis .
qed

lemma count_list_positive: "x \<in> set ks \<Longrightarrow> 0 < count_list ks x"
  by (induction ks) auto

lemma buckets_positive: "p \<in> set (buckets ks) \<Longrightarrow> Suc 0 \<le> snd p"
  by (auto simp: buckets_def Suc_le_eq count_list_positive)

lemma buckets_length: "length (buckets ks) = card (set ks)"
  using distinct_card[of "firstOccurrences ks"] by (simp add: buckets_def)

lemma sum_take_positive:
  fixes f :: "'a \<Rightarrow> nat"
  assumes "\<forall>x\<in>set xs. 1 \<le> f x"
  shows "sum_list (map f (take n xs)) \<le> sum_list (map f xs)"
    and "(sum_list (map f (take n xs)) = sum_list (map f xs)) = (length xs \<le> n)"
proof -
  have split: "sum_list (map f xs) = sum_list (map f (take n xs)) + sum_list (map f (drop n xs))"
    by (metis append_take_drop_id map_append sum_list_append)
  then show "sum_list (map f (take n xs)) \<le> sum_list (map f xs)" by simp
  have "\<forall>x\<in>set (drop n xs). 1 \<le> f x"
    using assms by (meson in_set_dropD)
  then have "(sum_list (map f (drop n xs)) = 0) = (drop n xs = [])"
    by (cases "drop n xs") auto
  then show "(sum_list (map f (take n xs)) = sum_list (map f xs)) = (length xs \<le> n)"
    using split by simp
qed

lemma stats_invariants_ordinary_keys:
  assumes "analyzeFieldValues (Some features) fld = Some stats"
      and "set (validKeys features fld) \<inter> set inheritedNames = {}"
  shows "length (sortedValues stats) \<le> 20
         \<and> uniqueCount stats = card (set (validKeys features fld))
         \<and> sumCounts (sortedValues stats) \<le> validCount stats
         \<and> ((sumCounts (sortedValues stats) = validCount stats) = (uniqueCount stats \<le> 20))"
proof -
  let ?all = "byCountDescending (entries (buckets (validKeys features fld)))"
  note a = analyzeFieldValues_ordinary[OF assms]
  have total: "sum_list (map snd ?all) = validCount stats"
    by (simp add: byCountDescending_def sum_list_sort_key entries_sum buckets_sum a(3))
  have len: "length ?all = uniqueCount stats"
    by (simp add: byCountDescending_def entries_length a(2))
  have pos: "\<forall>p\<in>set ?all. 1 \<le> snd p"
    by (simp add: byCountDescending_def entries_set buckets_positive)
  have s: "sumCounts (sortedValues stats) = sum_list (map snd (take 20 ?all))"
    by (simp add: a(1) sumCounts_asCounts)
  show ?thesis
    using sum_take_positive[OF pos, of 20] total len s a(1,2) buckets_length
    by simp
qed

lemma truncation_example:
  "map_option (\<lambda>s. (uniqueCount s, length (sortedValues s)))
     (analyzeFieldValues (Some (map (\<lambda>i. [''f'' \<mapsto> JStr (''v'' @ natToString i)]) [0..<25])) ''f'')
   = Some (25, 20)"
  by code_simp

end
